theory Spec2Isabelle
  imports Complex_Main "HOL-Library.Log_Nat" "HOL-Library.Sublist" "HOL-Library.Multiset"
begin

text \<open>
  The enrichment and scoring of lead-miner: the signal extractors of \<open>src/enricher.js\<close>,
  the rubric of \<open>src/scorer.js\<close> and the sentiment adapter of \<open>src/review-scraper.js\<close>,
  as functions of HOL. An exception of the source is a value \<open>Inl\<close> of a sum type, the
  clock is a parameter, and what is written to the console is left out.
\<close>

section \<open>JavaScript numbers\<close>

text \<open>
  A JavaScript number is an IEEE 754 binary64 value. The finite ones are rationals, so a
  number is modelled as a \<^typ>\<open>rat\<close> and every arithmetic operation of the source is the
  exact operation followed by \<open>fl\<close>, rounding to the nearest binary64 value (ties to even).
  The exponent range is not modelled: the quantities of this program are quotients and
  differences of review counts and rating sums, far from overflow and underflow.
\<close>

definition pow2 :: "int \<Rightarrow> rat" where
  "pow2 e = (if 0 \<le> e then 2 ^ nat e else 1 / 2 ^ nat (- e))"

definition ilog2 :: "rat \<Rightarrow> int" where
  \<comment> \<open>the exponent \<open>e\<close> with \<open>2^e \<le> |q| < 2^(e+1)\<close>, for \<open>q \<noteq> 0\<close>\<close>
  "ilog2 q = (case quotient_of \<bar>q\<bar> of (p, d) \<Rightarrow>
     let e0 = bitlen p - bitlen d in if pow2 e0 \<le> \<bar>q\<bar> then e0 else e0 - 1)"

definition round_half_even :: "rat \<Rightarrow> int" where
  "round_half_even t = (let f = \<lfloor>t\<rfloor>; r = t - of_int f in
     if r < 1 / 2 then f else if 1 / 2 < r then f + 1 else if even f then f else f + 1)"

definition fl :: "rat \<Rightarrow> rat" where
  \<comment> \<open>53 significant bits: the unit in the last place of \<open>q\<close> is \<open>2^(e - 52)\<close>\<close>
  "fl q = (if q = 0 then 0 else
     let u = pow2 (ilog2 q - 52) in
     sgn q * of_int (round_half_even (\<bar>q\<bar> / u)) * u)"

definition js_div :: "rat \<Rightarrow> rat \<Rightarrow> rat" where
  "js_div a b = fl (a / b)"

definition js_sub :: "rat \<Rightarrow> rat \<Rightarrow> rat" where
  "js_sub a b = fl (a - b)"

definition js_add :: "rat \<Rightarrow> rat \<Rightarrow> rat" where
  "js_add a b = fl (a + b)"

definition js_mul :: "rat \<Rightarrow> rat \<Rightarrow> rat" where
  "js_mul a b = fl (a * b)"

definition Math_round :: "rat \<Rightarrow> int" where
  \<comment> \<open>\<open>Math.round\<close>: the nearest integer, a half rounding towards \<open>+\<infinity>\<close>\<close>
  "Math_round x = \<lfloor>x + 1 / 2\<rfloor>"

definition toFixed2 :: "rat \<Rightarrow> int" where
  \<comment> \<open>\<open>x.toFixed(2)\<close> as a count of hundredths: the sign is split off and the magnitude
      rounded to the nearest hundredth, the larger one on a tie\<close>
  "toFixed2 x = (if x < 0 then - \<lfloor>- x * 100 + 1 / 2\<rfloor> else \<lfloor>x * 100 + 1 / 2\<rfloor>)"

definition fixed2 :: "rat \<Rightarrow> rat" where
  \<comment> \<open>\<open>parseFloat(x.toFixed(2))\<close>\<close>
  "fixed2 x = fl (of_int (toFixed2 x) / 100)"

fun digits :: "nat \<Rightarrow> string" where
  "digits n = (if n < 10 then [char_of (48 + n)] else digits (n div 10) @ [char_of (48 + n mod 10)])"

definition show_int :: "int \<Rightarrow> string" where
  \<comment> \<open>the decimal text of an integer, as a template literal prints it\<close>
  "show_int i = (if i < 0 then CHR ''-'' # digits (nat (- i)) else digits (nat i))"

section \<open>Data model\<close>

text \<open>
  A property that may be missing, \<open>null\<close> or \<open>undefined\<close> is an \<open>option\<close>; a string is
  truthy when it is present and not empty. Dates are held as the millisecond timestamp that
  \<open>new Date(d).getTime()\<close> yields, and the value of \<open>Date.now()\<close> is a parameter \<open>now\<close>.
\<close>

datatype js_error = TypeError

definition truthy :: "string option \<Rightarrow> bool" where
  "truthy v = (case v of None \<Rightarrow> False | Some s \<Rightarrow> s \<noteq> [])"

record sentiment_info =
  s_score :: int
  s_comparative :: "rat option"
  s_sentiment :: string
  s_positive :: "string list option"
  s_negative :: "string list option"

record review =
  rating :: int
  review_text :: "string option"
  date :: int
  sentiment :: "sentiment_info option"
  ownerResponse :: "string option"
  response :: "string option"

record lead =
  lead_id :: string
  source :: string
  name :: string
  lead_rating :: rat
  totalReviews :: int
  category :: string
  address :: "string option"
  phone :: "string option"
  website :: "string option"
  email :: "string option"
  reviews :: "review list option"
  url :: string
  scrapedAt :: string

record contact_info =
  c_phone :: "string option"
  c_email :: "string option"
  c_website :: "string option"
  hasContact :: bool
  emailType :: "string option"

record review_trend =
  trend :: string
  change :: rat
  recentAvg :: "rat option"
  olderAvg :: "rat option"
  trendScore :: "string option"

record business_size =
  size_tier :: string
  size_category :: string
  size_totalReviews :: int
  sizeScore :: rat

record response_rate =
  rate :: rat
  responded :: nat
  total_reviews :: nat
  percentage :: string
  engagement :: "string option"

record last_negative =
  ln_date :: int
  daysAgo :: int
  recency :: string

record enrichment_block =
  contactInfo :: contact_info
  reviewTrend :: "review_trend option"
  businessSize :: business_size
  responseRate :: "response_rate option"
  negativeReviewKeywords :: "(string \<times> nat) list"
  lastNegativeReview :: "last_negative option"

record enriched_lead = lead +
  enrichment :: "enrichment_block option"

record scoring_details =
  d_recentNegatives :: "(nat \<times> int) option"
  d_lowResponseRate :: "(rat \<times> int) option"
  d_businessSize :: "(int \<times> int) option"
  d_ratingDecline :: "(string option \<times> string option \<times> int) option"

record scoring =
  sc_score :: int
  sc_details :: scoring_details
  sc_priority :: string

record scored_lead = enriched_lead +
  score :: int
  scoringDetails :: scoring_details
  priority :: string

section \<open>Strings\<close>

text \<open>
  A string is a list of characters, and a character of the model is a code unit below 256:
  ASCII and the Latin-1 supplement, U+0080 to U+00FF. Strings with higher code units are
  outside the model. In this range \<open>toLowerCase\<close> changes the letters \<open>A\<close> to \<open>Z\<close> and the
  capital letters U+00C0 to U+00DE (the sign U+00D7 apart), each to the character 32
  places further on.
\<close>

definition lower_char :: "char \<Rightarrow> char" where
  "lower_char c = (let n = (of_char c :: nat) in
     if (65 \<le> n \<and> n \<le> 90) \<or> (192 \<le> n \<and> n \<le> 222 \<and> n \<noteq> 215) then char_of (n + 32) else c)"

definition toLowerCase :: "string \<Rightarrow> string" where
  "toLowerCase s = map lower_char s"

fun js_includes :: "string \<Rightarrow> string \<Rightarrow> bool" where
  "js_includes [] k = (k = [])"
| "js_includes (c # cs) k = (prefix k (c # cs) \<or> js_includes cs k)"

definition strip_prefix :: "string \<Rightarrow> string \<Rightarrow> string" where
  "strip_prefix p s = (if prefix p s then drop (length p) s else s)"

text \<open>
  The phone pattern of the enricher,
  \<^verbatim>\<open>/(\+?1?[-.\s]?)?\(?\d{3}\)?[-.\s]?\d{3}[-.\s]?\d{4}/g\<close>, is a sequence of single
  characters, each required or optional. An optional item is greedy: it is taken when it
  fits and the rest of the pattern matches, given up otherwise. The optional group at the
  front holds optional items only, so it tries the same alternatives in the same order as
  its three items written in sequence. Of the white space that \<open>\s\<close> matches, the model
  holds the space, the control characters U+0009 to U+000D and the no-break space U+00A0;
  \<open>\d\<close> matches the digits \<open>0\<close> to \<open>9\<close> only.
\<close>

datatype re_item = One "char \<Rightarrow> bool" | Opt "char \<Rightarrow> bool"

fun match_here :: "re_item list \<Rightarrow> string \<Rightarrow> string option" where
  "match_here [] s = Some []"
| "match_here (One p # ps) [] = None"
| "match_here (One p # ps) (c # cs) =
     (if p c then map_option ((#) c) (match_here ps cs) else None)"
| "match_here (Opt p # ps) [] = match_here ps []"
| "match_here (Opt p # ps) (c # cs) =
     (if p c then (case match_here ps cs of Some m \<Rightarrow> Some (c # m) | None \<Rightarrow> match_here ps (c # cs))
      else match_here ps (c # cs))"

fun first_match :: "re_item list \<Rightarrow> string \<Rightarrow> string option" where
  "first_match ps [] = match_here ps []"
| "first_match ps (c # cs) =
     (case match_here ps (c # cs) of Some m \<Rightarrow> Some m | None \<Rightarrow> first_match ps cs)"

definition required :: "re_item list \<Rightarrow> nat" where
  \<comment> \<open>the number of characters that every match of a pattern has at least\<close>
  "required ps = length (filter (\<lambda>i. case i of One _ \<Rightarrow> True | Opt _ \<Rightarrow> False) ps)"

definition is_digit :: "char \<Rightarrow> bool" where
  "is_digit c = (let n = (of_char c :: nat) in 48 \<le> n \<and> n \<le> 57)"

definition is_space :: "char \<Rightarrow> bool" where
  "is_space c = (let n = (of_char c :: nat) in n = 32 \<or> (9 \<le> n \<and> n \<le> 13) \<or> n = 160)"

definition is_sep :: "char \<Rightarrow> bool" where
  "is_sep c = (c = CHR ''-'' \<or> c = CHR ''.'' \<or> is_space c)"

definition phone_pattern :: "re_item list" where
  "phone_pattern =
     [Opt (\<lambda>c. c = CHR ''+''), Opt (\<lambda>c. c = CHR ''1''), Opt is_sep,
      Opt (\<lambda>c. c = CHR ''(''), One is_digit, One is_digit, One is_digit, Opt (\<lambda>c. c = CHR '')''),
      Opt is_sep, One is_digit, One is_digit, One is_digit,
      Opt is_sep, One is_digit, One is_digit, One is_digit, One is_digit]"

section \<open>The enricher (src/enricher.js)\<close>

definition extractDomain :: "string option \<Rightarrow> string option" where
  "extractDomain u = (case u of None \<Rightarrow> None | Some s \<Rightarrow>
     if s = [] then None
     else let s1 = (if prefix ''https://'' s then drop 8 s
                    else if prefix ''http://'' s then drop 7 s else s);
              s2 = strip_prefix ''www.'' s1
          in Some (takeWhile (\<lambda>c. c \<noteq> CHR ''/'') s2))"

definition or_null :: "string option \<Rightarrow> string option" where
  \<comment> \<open>\<open>v || null\<close>\<close>
  "or_null v = (if truthy v then v else None)"

definition address_phone :: "'a lead_scheme \<Rightarrow> string option" where
  \<comment> \<open>\<open>phoneMatch[0]\<close>, when the record has no phone and its address holds the pattern\<close>
  "address_phone l = (if \<not> truthy (or_null (phone l)) \<and> truthy (address l)
     then first_match phone_pattern (the (address l)) else None)"

definition enrichContactInfo :: "'a lead_scheme \<Rightarrow> contact_info" where
  "enrichContactInfo l =
     (let phone0 = or_null (phone l);
          email0 = or_null (email l);
          website0 = or_null (website l);
          phone1 = (case address_phone l of Some m \<Rightarrow> Some m | None \<Rightarrow> phone0);
          domain = (if \<not> truthy email0 \<and> truthy website0 then extractDomain website0 else None);
          email1 = (if truthy domain then Some (''info@'' @ the domain) else email0);
          etype = (if truthy domain then Some ''estimated'' else None)
      in \<lparr>c_phone = phone1, c_email = email1, c_website = website0,
          hasContact = (truthy phone1 \<or> truthy email1 \<or> truthy website0),
          emailType = etype\<rparr>)"

definition js_num :: "int \<Rightarrow> rat" where
  \<comment> \<open>the number that an integer of the input denotes\<close>
  "js_num i = fl (of_int i)"

definition averageRating :: "review list \<Rightarrow> rat" where
  "averageRating rs = (if length rs = 0 then 0
     else js_div (fold (\<lambda>r acc. js_add acc (js_num (rating r))) rs 0) (of_nat (length rs)))"

definition by_date_desc :: "review list \<Rightarrow> review list" where
  \<comment> \<open>\<open>sort((a, b) => new Date(b.date) - new Date(a.date))\<close>; the sort of an array is stable\<close>
  "by_date_desc rs = sort_key (\<lambda>r. - date r) rs"

definition calculateReviewTrend :: "review list option \<Rightarrow> review_trend" where
  "calculateReviewTrend reviews0 = (case reviews0 of
       None \<Rightarrow> \<lparr>trend = ''insufficient_data'', change = 0, recentAvg = None, olderAvg = None,
                 trendScore = None\<rparr>
     | Some rs \<Rightarrow>
         if length rs < 5
         then \<lparr>trend = ''insufficient_data'', change = 0, recentAvg = None, olderAvg = None,
                trendScore = None\<rparr>
         else let sorted0 = by_date_desc rs;
                  mid = length sorted0 div 2;
                  recent = averageRating (take mid sorted0);
                  older = averageRating (drop mid sorted0);
                  ch = js_sub recent older
              in \<lparr>trend = (if ch < - fl (3 / 10) then ''worsening''
                          else if ch > fl (3 / 10) then ''improving'' else ''stable''),
                  change = fixed2 ch,
                  recentAvg = Some (fixed2 recent),
                  olderAvg = Some (fixed2 older),
                  trendScore = Some (if ch < - fl (5 / 10) then ''critical''
                                     else if ch < - fl (3 / 10) then ''high'' else ''moderate'')\<rparr>)"

definition estimateBusinessSize :: "'a lead_scheme \<Rightarrow> business_size" where
  "estimateBusinessSize l =
     (let total = totalReviews l;
          sc = (if total < 10 then (''very_small'', ''Micro (<10 reviews)'')
                else if total < 50 then (''small'', ''Small (10-50 reviews)'')
                else if total < 200 then (''medium'', ''Medium (50-200 reviews)'')
                else if total < 500 then (''large'', ''Large (200-500 reviews)'')
                else (''very_large'', ''Very Large (500+ reviews)''))
      in \<lparr>size_tier = fst sc, size_category = snd sc, size_totalReviews = total,
          sizeScore = min (js_div (js_num total) 10) 100\<rparr>)"

definition has_response :: "review \<Rightarrow> bool" where
  "has_response r = (truthy (ownerResponse r) \<or> truthy (response r))"

definition calculateResponseRate :: "review list option \<Rightarrow> response_rate" where
  "calculateResponseRate reviews0 = (case reviews0 of
       None \<Rightarrow> \<lparr>rate = 0, responded = 0, total_reviews = 0, percentage = ''0%'', engagement = None\<rparr>
     | Some rs \<Rightarrow>
         if length rs = 0
         then \<lparr>rate = 0, responded = 0, total_reviews = 0, percentage = ''0%'', engagement = None\<rparr>
         else let resp = length (filter has_response rs);
                  tot = length rs;
                  r = js_div (of_nat resp) (of_nat tot)
              in \<lparr>rate = fixed2 r, responded = resp, total_reviews = tot,
                  percentage = show_int (Math_round (js_mul r 100)) @ ''%'',
                  engagement = Some (if r > fl (7 / 10) then ''high''
                                     else if r > fl (3 / 10) then ''moderate'' else ''low'')\<rparr>)"

definition keyword_list :: "string list" where
  "keyword_list = [''slow'', ''rude'', ''dirty'', ''cold'', ''wait'', ''poor'', ''terrible'', ''worst'',
     ''disappointed'', ''never'', ''avoid'', ''bad'', ''horrible'', ''disgusting'',
     ''unprofessional'', ''delayed'', ''broken'', ''outdated'', ''overpriced'']"

definition is_negative :: "review \<Rightarrow> bool" where
  \<comment> \<open>\<open>r.rating <= 2 || r.sentiment?.sentiment === 'negative'\<close>\<close>
  "is_negative r = (rating r \<le> 2 \<or>
     (case sentiment r of None \<Rightarrow> False | Some s \<Rightarrow> s_sentiment s = ''negative''))"

fun map_get :: "(string \<times> nat) list \<Rightarrow> string \<Rightarrow> nat" where
  \<comment> \<open>\<open>found.get(k) || 0\<close>\<close>
  "map_get [] k = 0"
| "map_get ((k', v) # m) k = (if k' = k then v else map_get m k)"

fun map_set :: "(string \<times> nat) list \<Rightarrow> string \<Rightarrow> nat \<Rightarrow> (string \<times> nat) list" where
  \<comment> \<open>\<open>found.set(k, v)\<close>: a \<open>Map\<close> keeps its keys in the order of their first insertion\<close>
  "map_set [] k v = [(k, v)]"
| "map_set ((k', v') # m) k v = (if k' = k then (k, v) # m else (k', v') # map_set m k v)"

definition review_lower :: "review \<Rightarrow> string" where
  \<comment> \<open>\<open>(review.text || '').toLowerCase()\<close>\<close>
  "review_lower r = toLowerCase (case review_text r of None \<Rightarrow> [] | Some t \<Rightarrow> t)"

definition count_review :: "review \<Rightarrow> (string \<times> nat) list \<Rightarrow> (string \<times> nat) list" where
  "count_review r found0 =
     fold (\<lambda>k f. if js_includes (review_lower r) k then map_set f k (map_get f k + 1) else f)
       keyword_list found0"

definition by_count_desc :: "(string \<times> nat) list \<Rightarrow> (string \<times> nat) list" where
  \<comment> \<open>\<open>sort((a, b) => b[1] - a[1])\<close>\<close>
  "by_count_desc m = sort_key (\<lambda>e. - int (snd e)) m"

definition extractNegativeKeywords :: "review list option \<Rightarrow> js_error + (string \<times> nat) list" where
  "extractNegativeKeywords reviews0 = (case reviews0 of
       None \<Rightarrow> Inl TypeError
     | Some rs \<Rightarrow>
         let negativeReviews = filter is_negative rs in
         if length negativeReviews = 0 then Inr []
         else Inr (take 5 (by_count_desc (fold count_review negativeReviews []))))"

definition Math_floor :: "rat \<Rightarrow> int" where
  "Math_floor x = \<lfloor>x\<rfloor>"

definition getLastNegativeReviewDate :: "int \<Rightarrow> review list option \<Rightarrow> js_error + last_negative option" where
  "getLastNegativeReviewDate now reviews0 = (case reviews0 of
       None \<Rightarrow> Inl TypeError
     | Some rs \<Rightarrow>
         (case by_date_desc (filter (\<lambda>r. rating r \<le> 2) rs) of
            [] \<Rightarrow> Inr None
          | r0 # _ \<Rightarrow>
              let d = Math_floor (js_div (js_num (now - date r0)) (1000 * 60 * 60 * 24))
              in Inr (Some \<lparr>ln_date = date r0, daysAgo = d,
                     recency = (if d < 7 then ''very_recent''
                                else if d < 30 then ''recent'' else ''old'')\<rparr>)))"

definition enrichLead :: "int \<Rightarrow> lead \<Rightarrow> js_error + enriched_lead" where
  "enrichLead now l =
     (case extractNegativeKeywords (reviews l) of
        Inl e \<Rightarrow> Inl e
      | Inr kws \<Rightarrow>
          (case getLastNegativeReviewDate now (reviews l) of
             Inl e \<Rightarrow> Inl e
           | Inr lastNeg \<Rightarrow>
               Inr (lead.extend l (enriched_lead.fields (Some
                 \<lparr>contactInfo = enrichContactInfo l,
                  reviewTrend = Some (calculateReviewTrend (reviews l)),
                  businessSize = estimateBusinessSize l,
                  responseRate = Some (calculateResponseRate (reviews l)),
                  negativeReviewKeywords = kws,
                  lastNegativeReview = lastNeg\<rparr>)))))"

fun enrichLeads :: "int \<Rightarrow> lead list \<Rightarrow> js_error + enriched_lead list" where
  "enrichLeads now [] = Inr []"
| "enrichLeads now (l # ls) =
     (case enrichLead now l of
        Inl e \<Rightarrow> Inl e
      | Inr x \<Rightarrow> (case enrichLeads now ls of Inl e \<Rightarrow> Inl e | Inr xs \<Rightarrow> Inr (x # xs)))"

section \<open>The scorer (src/scorer.js)\<close>

record weights_rec =
  w_recentNegatives :: int
  w_lowResponseRate :: int
  w_businessSize :: int
  w_ratingDecline :: int

definition weights :: weights_rec where
  "weights = \<lparr>w_recentNegatives = 40, w_lowResponseRate = 30, w_businessSize = 20,
     w_ratingDecline = 10\<rparr>"

definition partial_points :: "int \<Rightarrow> rat \<Rightarrow> int" where
  \<comment> \<open>\<open>Math.round(w * f)\<close> for a weight \<open>w\<close> and a decimal literal \<open>f\<close>\<close>
  "partial_points w f = Math_round (js_mul (js_num w) (fl f))"

definition countRecentNegatives :: "int \<Rightarrow> 'a lead_scheme \<Rightarrow> nat" where
  "countRecentNegatives now l = (case reviews l of
       None \<Rightarrow> 0
     | Some rs \<Rightarrow>
         if length rs = 0 then 0
         else let thirtyDaysAgo = now - 30 * 24 * 60 * 60 * 1000
              in length (filter (\<lambda>r. date r \<ge> thirtyDaysAgo \<and> rating r \<le> 2) rs))"

definition recent_negatives_points :: "int \<Rightarrow> 'a lead_scheme \<Rightarrow> int \<times> (nat \<times> int) option" where
  "recent_negatives_points now l =
     (let n = countRecentNegatives now l; w = w_recentNegatives weights in
      if n \<ge> 5 then (w, Some (n, w))
      else if n \<ge> 3 then (let p = partial_points w (6 / 10) in (p, Some (n, p)))
      else if n \<ge> 1 then (let p = partial_points w (3 / 10) in (p, Some (n, p)))
      else (0, None))"

definition stored_rate :: "'a enriched_lead_scheme \<Rightarrow> rat" where
  \<comment> \<open>\<open>lead.enrichment?.responseRate?.rate || 0\<close>\<close>
  "stored_rate l = (case enrichment l of None \<Rightarrow> 0
     | Some e \<Rightarrow> (case responseRate e of None \<Rightarrow> 0 | Some rr \<Rightarrow> rate rr))"

definition low_response_points :: "'a enriched_lead_scheme \<Rightarrow> int \<times> (rat \<times> int) option" where
  "low_response_points l =
     (let r = stored_rate l; w = w_lowResponseRate weights in
      if r < fl (2 / 10) then (w, Some (r, w))
      else if r < fl (5 / 10) then (let p = partial_points w (5 / 10) in (p, Some (r, p)))
      else (0, None))"

definition business_size_points :: "'a lead_scheme \<Rightarrow> int \<times> (int \<times> int) option" where
  "business_size_points l =
     (let reviewCount = totalReviews l; w = w_businessSize weights in
      if reviewCount > 100 then (w, Some (reviewCount, w))
      else if reviewCount > 50 then (let p = partial_points w (7 / 10) in (p, Some (reviewCount, p)))
      else if reviewCount > 20 then (let p = partial_points w (4 / 10) in (p, Some (reviewCount, p)))
      else (0, None))"

definition stored_trend :: "'a enriched_lead_scheme \<Rightarrow> string option" where
  \<comment> \<open>\<open>lead.enrichment?.reviewTrend?.trend\<close>\<close>
  "stored_trend l = (case enrichment l of None \<Rightarrow> None
     | Some e \<Rightarrow> (case reviewTrend e of None \<Rightarrow> None | Some t \<Rightarrow> Some (trend t)))"

definition stored_trendScore :: "'a enriched_lead_scheme \<Rightarrow> string option" where
  \<comment> \<open>\<open>lead.enrichment?.reviewTrend?.trendScore\<close>\<close>
  "stored_trendScore l = (case enrichment l of None \<Rightarrow> None
     | Some e \<Rightarrow> (case reviewTrend e of None \<Rightarrow> None | Some t \<Rightarrow> trendScore t))"

definition rating_decline_points ::
  "'a enriched_lead_scheme \<Rightarrow> int \<times> (string option \<times> string option \<times> int) option" where
  "rating_decline_points l =
     (let t = stored_trend l; ts = stored_trendScore l; w = w_ratingDecline weights in
      if t = Some ''worsening'' \<or> ts = Some ''critical'' then (w, Some (t, ts, w))
      else if ts = Some ''high'' then (let p = partial_points w (5 / 10) in (p, Some (t, ts, p)))
      else (0, None))"

definition getPriorityLevel :: "int \<Rightarrow> string" where
  "getPriorityLevel sc = (if sc \<ge> 80 then ''critical''
     else if sc \<ge> 60 then ''high''
     else if sc \<ge> 40 then ''medium''
     else ''low'')"

definition raw_score :: "int \<Rightarrow> 'a enriched_lead_scheme \<Rightarrow> int" where
  \<comment> \<open>the variable \<open>score\<close> after the four blocks, before it is capped\<close>
  "raw_score now l = fst (recent_negatives_points now l) + fst (low_response_points l)
     + fst (business_size_points l) + fst (rating_decline_points l)"

definition calculateLeadScore :: "int \<Rightarrow> 'a enriched_lead_scheme \<Rightarrow> scoring" where
  "calculateLeadScore now l =
     \<lparr>sc_score = min (raw_score now l) 100,
      sc_details = \<lparr>d_recentNegatives = snd (recent_negatives_points now l),
                    d_lowResponseRate = snd (low_response_points l),
                    d_businessSize = snd (business_size_points l),
                    d_ratingDecline = snd (rating_decline_points l)\<rparr>,
      sc_priority = getPriorityLevel (raw_score now l)\<rparr>"

definition score_lead :: "int \<Rightarrow> enriched_lead \<Rightarrow> scored_lead" where
  \<comment> \<open>the callback of \<open>leads.map\<close>: a new object, the lead's properties and three more\<close>
  "score_lead now l = (let scoring0 = calculateLeadScore now l in
     enriched_lead.extend l
       (scored_lead.fields (sc_score scoring0) (sc_details scoring0) (sc_priority scoring0)))"

text \<open>
  \<open>scoreAllLeads\<close> builds a new array of new objects and sorts that array in place. To
  say what happens to its argument, arrays and objects live in a store: a list of cells,
  whose addresses are the positions, and where a new cell goes to the end. An argument
  that is no array of records (a dangling address, an array among the elements) stands
  for \<open>null\<close> or \<open>undefined\<close>, on which the source raises.
\<close>

datatype cell = LeadObj enriched_lead | ScoredObj scored_lead | Arr "nat list"

type_synonym store = "cell list"

definition read_array :: "store \<Rightarrow> nat \<Rightarrow> nat list option" where
  "read_array h a = (if a < length h then (case h ! a of Arr rs \<Rightarrow> Some rs | _ \<Rightarrow> None) else None)"

definition read_lead :: "store \<Rightarrow> nat \<Rightarrow> enriched_lead option" where
  \<comment> \<open>what the scorer reads of the object at an address; of a record scored before, the
      three properties that the new score replaces are left out\<close>
  "read_lead h a = (if a < length h
     then (case h ! a of LeadObj l \<Rightarrow> Some l
           | ScoredObj s \<Rightarrow> Some (enriched_lead.truncate s)
           | Arr _ \<Rightarrow> None)
     else None)"

definition read_scored :: "store \<Rightarrow> nat \<Rightarrow> scored_lead option" where
  "read_scored h a = (if a < length h then (case h ! a of ScoredObj l \<Rightarrow> Some l | _ \<Rightarrow> None) else None)"

fun read_all :: "(nat \<Rightarrow> 'a option) \<Rightarrow> nat list \<Rightarrow> 'a list option" where
  "read_all f [] = Some []"
| "read_all f (r # rs) = (case f r of None \<Rightarrow> None
     | Some x \<Rightarrow> (case read_all f rs of None \<Rightarrow> None | Some xs \<Rightarrow> Some (x # xs)))"

definition alloc_all :: "store \<Rightarrow> cell list \<Rightarrow> nat list \<times> store" where
  "alloc_all h cs = ([length h ..< length h + length cs], h @ cs)"

definition score_at :: "store \<Rightarrow> nat \<Rightarrow> int" where
  "score_at h r = (case read_scored h r of Some s \<Rightarrow> score s | None \<Rightarrow> 0)"

definition scoreAllLeads :: "int \<Rightarrow> store \<Rightarrow> nat \<Rightarrow> js_error + nat \<times> store" where
  "scoreAllLeads now h leads = (case read_array h leads of
       None \<Rightarrow> Inl TypeError
     | Some refs \<Rightarrow>
         (case read_all (read_lead h) refs of
            None \<Rightarrow> Inl TypeError
          | Some ls \<Rightarrow>
              let (rs, h1) = alloc_all h (map (\<lambda>l. ScoredObj (score_lead now l)) ls);
                  scored = length h1;
                  h2 = h1 @ [Arr rs];
                  h3 = h2[scored := Arr (sort_key (\<lambda>r. - score_at h2 r) rs)]
              in Inr (scored, h3)))"

definition scored_list :: "store \<Rightarrow> nat \<Rightarrow> scored_lead list option" where
  \<comment> \<open>the records that the array at an address holds\<close>
  "scored_list h a = (case read_array h a of None \<Rightarrow> None | Some rs \<Rightarrow> read_all (read_scored h) rs)"

section \<open>The sentiment adapter (src/review-scraper.js)\<close>

text \<open>
  \<open>analyzeSentiment\<close> wraps the \<open>analyze\<close> function of the sentiment package, which is not
  part of the repository and is a parameter here.
\<close>

record analysis =
  a_score :: int
  a_comparative :: rat
  a_positive :: "string list"
  a_negative :: "string list"

definition analyzeSentiment :: "(string \<Rightarrow> analysis) \<Rightarrow> string option \<Rightarrow> sentiment_info" where
  "analyzeSentiment analyze t = (case t of
       None \<Rightarrow> \<lparr>s_score = 0, s_comparative = None, s_sentiment = ''neutral'',
                 s_positive = None, s_negative = None\<rparr>
     | Some txt \<Rightarrow>
         if txt = [] then \<lparr>s_score = 0, s_comparative = None, s_sentiment = ''neutral'',
                           s_positive = None, s_negative = None\<rparr>
         else let result = analyze txt in
           \<lparr>s_score = a_score result,
            s_comparative = Some (a_comparative result),
            s_sentiment = (if a_score result > 0 then ''positive''
                           else if a_score result < 0 then ''negative'' else ''neutral''),
            s_positive = Some (a_positive result),
            s_negative = Some (a_negative result)\<rparr>)"

section \<open>Notions for the statements\<close>

text \<open>
  The negativity test and the keyword ranking as the specification words them, to compare
  with the source, and names for the parts of the extractors that the statements speak of.
\<close>

definition spec_is_negative :: "(string \<Rightarrow> analysis) \<Rightarrow> review \<Rightarrow> bool" where
  \<comment> \<open>the negativity test in the words of the specification: the rating is 2 or less, or
      the label computed afresh from the text is negative\<close>
  "spec_is_negative analyze r = (rating r \<le> 2 \<or>
     s_sentiment (analyzeSentiment analyze (review_text r)) = ''negative'')"

definition spec_negative_keywords :: "(string \<Rightarrow> analysis) \<Rightarrow> review list \<Rightarrow> (string \<times> nat) list" where
  \<comment> \<open>the keyword extraction over the reviews that the test of the specification calls
      negative\<close>
  "spec_negative_keywords analyze rs =
     take 5 (by_count_desc (fold count_review (filter (spec_is_negative analyze) rs) []))"

definition hits :: "review \<Rightarrow> string list" where
  \<comment> \<open>the terms of the lexicon that the text of a review contains, in lexicon order\<close>
  "hits r = filter (js_includes (review_lower r)) keyword_list"

definition mentions :: "string \<Rightarrow> review list \<Rightarrow> nat" where
  \<comment> \<open>how many of the reviews contain the term\<close>
  "mentions k rs = length (filter (\<lambda>r. js_includes (review_lower r) k) rs)"

definition sightings :: "review list \<Rightarrow> string list" where
  \<comment> \<open>the terms found, review after review\<close>
  "sightings rs = concat (map hits rs)"

primrec first_seen :: "'a list \<Rightarrow> 'a list" where
  \<comment> \<open>the distinct elements of a list, each at the place of its first occurrence\<close>
  "first_seen [] = []"
| "first_seen (x # xs) = x # filter (\<lambda>y. y \<noteq> x) (first_seen xs)"

definition bump :: "string \<Rightarrow> (string \<times> nat) list \<Rightarrow> (string \<times> nat) list" where
  "bump k f = map_set f k (map_get f k + 1)"

definition occurrences :: "string \<Rightarrow> string \<Rightarrow> nat" where
  \<comment> \<open>the number of places of a text at which a term starts\<close>
  "occurrences t k = length (filter (prefix k) (suffixes t))"

definition spec_keyword_ranking :: "review list \<Rightarrow> (string \<times> nat) list" where
  \<comment> \<open>the ranking in the words of the specification: the terms that occur in the texts
      of the negative reviews, each with the number of its occurrences, the highest count
      first and equal counts in the order of the lexicon\<close>
  "spec_keyword_ranking rs = (let negs = filter is_negative rs in
     take 5 (sort_key (\<lambda>e. - int (snd e))
       (filter (\<lambda>e. snd e > 0)
         (map (\<lambda>k. (k, sum_list (map (\<lambda>r. occurrences (review_lower r) k) negs))) keyword_list))))"

definition newer_half :: "review list \<Rightarrow> review list" where
  \<comment> \<open>\<open>sorted.slice(0, mid)\<close>\<close>
  "newer_half rs = take (length rs div 2) (by_date_desc rs)"

definition older_half :: "review list \<Rightarrow> review list" where
  \<comment> \<open>\<open>sorted.slice(mid)\<close>\<close>
  "older_half rs = drop (length rs div 2) (by_date_desc rs)"

definition trend_change :: "review list \<Rightarrow> rat" where
  \<comment> \<open>the variable \<open>change\<close> of \<open>calculateReviewTrend\<close>, before it is rounded\<close>
  "trend_change rs = js_sub (averageRating (newer_half rs)) (averageRating (older_half rs))"

section \<open>Example records\<close>

definition now0 :: int where
  \<comment> \<open>2026-02-14T17:02:28.406Z\<close>
  "now0 = 1771088548406"

definition day_ms :: int where
  "day_ms = 1000 * 60 * 60 * 24"

definition base_lead :: lead where
  "base_lead = \<lparr>lead_id = ''demo_1'', source = ''demo'', name = ''Maple Cafe'', lead_rating = 2,
     totalReviews = 5, category = ''Cafe'', address = Some ''12 Oak St, Austin, TX'',
     phone = None, website = None, email = None, reviews = Some [],
     url = ''https://maple-cafe.com'', scrapedAt = ''2026-02-14T17:02:28.406Z''\<rparr>"

definition mk_review :: "int \<Rightarrow> string \<Rightarrow> int \<Rightarrow> review" where
  "mk_review rt txt d = \<lparr>rating = rt, review_text = Some txt, date = d, sentiment = None,
     ownerResponse = None, response = None\<rparr>"

definition hot_reviews :: "review list" where
  "hot_reviews =
     [mk_review 1 ''Long wait and the service was rude.'' (now0 - 1 * day_ms),
      mk_review 1 ''Dirty tables and cold food.'' (now0 - 2 * day_ms),
      mk_review 1 ''Terrible experience. Would not return.'' (now0 - 3 * day_ms),
      mk_review 4 ''Great value for the price.'' (now0 - 4 * day_ms),
      mk_review 1 ''Staff was unhelpful and slow.'' (now0 - 5 * day_ms),
      mk_review 1 ''Not worth the price. Very disappointed.'' (now0 - 6 * day_ms)]"

definition hot_lead :: lead where
  "hot_lead = base_lead\<lparr>totalReviews := 250, reviews := Some hot_reviews\<rparr>"

definition orphan_lead :: lead where
  \<comment> \<open>a record whose \<open>reviews\<close> property is missing\<close>
  "orphan_lead = base_lead\<lparr>reviews := None\<rparr>"

definition decline_reviews :: "review list" where
  "decline_reviews =
     [mk_review 3 ''Fine for a quick stop.'' (now0 - 1 * day_ms),
      mk_review 3 ''Okay overall but nothing special.'' (now0 - 2 * day_ms),
      mk_review 3 ''Average visit, some things could improve.'' (now0 - 3 * day_ms),
      mk_review 5 ''Great value for the price.'' (now0 - 40 * day_ms),
      mk_review 5 ''Good service and clean space.'' (now0 - 50 * day_ms),
      mk_review 5 ''Friendly staff and quick service.'' (now0 - 60 * day_ms)]"

definition decline_lead :: lead where
  "decline_lead = base_lead\<lparr>reviews := Some decline_reviews\<rparr>"

definition plain_analyze :: "string \<Rightarrow> analysis" where
  \<comment> \<open>an analysis that finds no word of its lexicon in the text\<close>
  "plain_analyze t = \<lparr>a_score = 0, a_comparative = 0, a_positive = [], a_negative = []\<rparr>"

definition grim_analyze :: "string \<Rightarrow> analysis" where
  \<comment> \<open>an analysis that scores every text below zero\<close>
  "grim_analyze t = \<lparr>a_score = - 2, a_comparative = - 1, a_positive = [], a_negative = [''slow'']\<rparr>"

definition label_review :: review where
  \<comment> \<open>four stars, and a stored sentiment that is the analysis of the text\<close>
  "label_review = \<lparr>rating = 4, review_text = Some ''Slow service.'', date = now0 - day_ms,
     sentiment = Some (analyzeSentiment grim_analyze (Some ''Slow service.'')),
     ownerResponse = None, response = None\<rparr>"

definition labelled :: "string \<Rightarrow> review" where
  \<comment> \<open>a four-star review with a given stored label\<close>
  "labelled lbl = \<lparr>rating = 4, review_text = Some ''Slow service.'', date = now0 - day_ms,
     sentiment = Some \<lparr>s_score = 0, s_comparative = Some 0, s_sentiment = lbl,
       s_positive = Some [], s_negative = Some []\<rparr>,
     ownerResponse = None, response = None\<rparr>"

definition pair_reviews :: "review list" where
  \<comment> \<open>the same rating and text twice, stored as negative once and as positive once\<close>
  "pair_reviews = [labelled ''negative'', labelled ''positive'']"

definition repeat_reviews :: "review list" where
  "repeat_reviews = [mk_review 1 ''Rude staff, rude manager.'' (now0 - 1 * day_ms)]"

definition tie_reviews :: "review list" where
  "tie_reviews =
     [mk_review 1 ''The staff was RUDE.'' (now0 - 1 * day_ms),
      mk_review 2 ''Very slow service.'' (now0 - 2 * day_ms),
      mk_review 5 ''Never slow, always friendly.'' (now0 - 3 * day_ms)]"

definition address_lead :: lead where
  \<comment> \<open>no phone, e-mail or website, and a phone number inside the address\<close>
  "address_lead = base_lead\<lparr>address := Some ''12 Oak St, Austin, TX, call 512-555-0142''\<rparr>"

definition nbsp_lead :: lead where
  \<comment> \<open>a phone number whose groups are set apart by no-break spaces\<close>
  "nbsp_lead = base_lead\<lparr>address :=
     Some (''Austin TX 512'' @ [CHR 0xA0] @ ''555'' @ [CHR 0xA0] @ ''0142'')\<rparr>"

definition nodomain_lead :: lead where
  \<comment> \<open>a website without a host name\<close>
  "nodomain_lead = base_lead\<lparr>website := Some ''https:///menu''\<rparr>"

definition site_lead :: lead where
  "site_lead = base_lead\<lparr>phone := Some ''(512) 555-0142'',
     website := Some ''https://www.maple-cafe.com/menu''\<rparr>"

definition mail_lead :: lead where
  "mail_lead = base_lead\<lparr>address := None, email := Some ''owner@maple-cafe.com''\<rparr>"

definition batch0 :: "enriched_lead list" where
  \<comment> \<open>three enriched records; the first and the third score alike\<close>
  "batch0 =
     [projr (enrichLead now0 base_lead),
      projr (enrichLead now0 (hot_lead\<lparr>lead_id := ''demo_2''\<rparr>)),
      projr (enrichLead now0 (base_lead\<lparr>lead_id := ''demo_3''\<rparr>))]"

definition store0 :: store where
  \<comment> \<open>the records at the addresses 0, 1 and 2, the array of them at the address 3\<close>
  "store0 = map LeadObj batch0 @ [Arr [0, 1, 2]]"

definition edge_reviews :: "review list" where
  \<comment> \<open>fifteen reviews: the seven newest have the ratings 1, 1, 1, 1, 2, 2, 2 (mean 10/7), the
      eight older ones 1, 1, 1, 1, 1, 1, 1, 2 (mean 9/8); the difference is 17/56\<close>
  "edge_reviews =
     map (\<lambda>(i, rt). mk_review rt ''Okay overall but nothing special.'' (now0 - i * day_ms))
       [(1, 1), (2, 1), (3, 1), (4, 1), (5, 2), (6, 2), (7, 2),
        (8, 1), (9, 1), (10, 1), (11, 1), (12, 1), (13, 1), (14, 1), (15, 2)]"

section \<open>Properties\<close>

subsection \<open>The number model on known values\<close>

lemma fl_three_tenths: "fl (3 / 10) = 5404319552844595 / 18014398509481984"
  by code_simp

lemma fl_one_fifth: "fl (1 / 5) = 3602879701896397 / 18014398509481984"
  by code_simp

lemma fl_half: "fl (1 / 2) = 1 / 2"
  by code_simp

lemma one_tenth_plus_two_tenths:
  "js_add (fl (1 / 10)) (fl (2 / 10)) = 1351079888211149 / 4503599627370496"
  "fl (3 / 10) < js_add (fl (1 / 10)) (fl (2 / 10))"
  by code_simp+

lemma inexact_difference: "js_sub (js_div 39 10) (js_div 44 10) < - (1 / 2)"
  by code_simp

lemma toFixed2_values:
  "toFixed2 (1 / 8) = 13" "toFixed2 (- (1 / 8)) = - 13" "toFixed2 (fl (3 / 40)) = 7"
  by code_simp+

lemma js_includes_sublist: "js_includes t k \<longleftrightarrow> sublist k t"
  by (induction t) (auto simp: sublist_Cons_right)

subsection \<open>Numbers of the rubric\<close>

lemma partial_40_06: "partial_points 40 (3 / 5) = 24"
  by code_simp

lemma partial_40_03: "partial_points 40 (3 / 10) = 12"
  by code_simp

lemma partial_30_05: "partial_points 30 (1 / 2) = 15"
  by code_simp

lemma partial_20_07: "partial_points 20 (7 / 10) = 14"
  by code_simp

lemma partial_20_04: "partial_points 20 (2 / 5) = 8"
  by code_simp

lemma partial_10_05: "partial_points 10 (1 / 2) = 5"
  by code_simp

lemma recent_negatives_points_cases: "fst (recent_negatives_points now l) \<in> {0, 12, 24, 40}"
  by (simp add: recent_negatives_points_def Let_def weights_def partial_40_06 partial_40_03)

lemma low_response_points_cases: "fst (low_response_points l) \<in> {0, 15, 30}"
  by (simp add: low_response_points_def Let_def weights_def partial_30_05)

lemma business_size_points_cases: "fst (business_size_points l) \<in> {0, 8, 14, 20}"
  by (simp add: business_size_points_def Let_def weights_def partial_20_07 partial_20_04)

lemma rating_decline_points_cases: "fst (rating_decline_points l) \<in> {0, 5, 10}"
  by (simp add: rating_decline_points_def Let_def weights_def partial_10_05)

lemma raw_score_range: "0 \<le> raw_score now l \<and> raw_score now l \<le> 100"
  using recent_negatives_points_cases[of now l] low_response_points_cases[of l]
    business_size_points_cases[of l] rating_decline_points_cases[of l]
  unfolding raw_score_def by auto

lemma getPriorityLevel_iff:
  "(getPriorityLevel s = ''critical'' \<longleftrightarrow> 80 \<le> s) \<and>
   (getPriorityLevel s = ''high'' \<longleftrightarrow> 60 \<le> s \<and> s < 80) \<and>
   (getPriorityLevel s = ''medium'' \<longleftrightarrow> 40 \<le> s \<and> s < 60) \<and>
   (getPriorityLevel s = ''low'' \<longleftrightarrow> s < 40)"
  by (simp add: getPriorityLevel_def)

lemma score_uncapped: "sc_score (calculateLeadScore now l) = raw_score now l"
  using raw_score_range[of now l] by (simp add: calculateLeadScore_def)

lemma priority_of_score:
  "sc_priority (calculateLeadScore now l) = getPriorityLevel (sc_score (calculateLeadScore now l))"
  unfolding score_uncapped by (simp add: calculateLeadScore_def)

subsection \<open>The enrichment of one record\<close>

lemma extend_sel:
  "reviews (lead.extend l x) = reviews l"
  "totalReviews (lead.extend l x) = totalReviews l"
  "enrichment (lead.extend l (enriched_lead.fields e)) = e"
  "lead.truncate (lead.extend l (enriched_lead.fields e)) = l"
  by (simp_all add: lead.extend_def enriched_lead.fields_def lead.truncate_def)

lemma extractNegativeKeywords_present:
  "\<exists>kws. extractNegativeKeywords (Some rs) = Inr kws"
  by (simp add: extractNegativeKeywords_def Let_def)

lemma getLastNegativeReviewDate_present:
  "\<exists>lastNeg. getLastNegativeReviewDate now (Some rs) = Inr lastNeg"
  by (simp add: getLastNegativeReviewDate_def Let_def split: list.split)

lemma enrichLead_present:
  assumes "reviews l = Some rs"
  shows "enrichLead now l = Inr (lead.extend l (enriched_lead.fields (Some
     \<lparr>contactInfo = enrichContactInfo l,
      reviewTrend = Some (calculateReviewTrend (Some rs)),
      businessSize = estimateBusinessSize l,
      responseRate = Some (calculateResponseRate (Some rs)),
      negativeReviewKeywords = projr (extractNegativeKeywords (Some rs)),
      lastNegativeReview = projr (getLastNegativeReviewDate now (Some rs))\<rparr>)))"
proof -
  obtain kws where k: "extractNegativeKeywords (Some rs) = Inr kws"
    using extractNegativeKeywords_present by blast
  obtain lastNeg where n: "getLastNegativeReviewDate now (Some rs) = Inr lastNeg"
    using getLastNegativeReviewDate_present by blast
  show ?thesis by (simp add: enrichLead_def assms k n)
qed

lemma enrichLead_absent: "reviews l = None \<Longrightarrow> enrichLead now l = Inl TypeError"
  by (simp add: enrichLead_def extractNegativeKeywords_def)

subsection \<open>Score and priority\<close>

text \<open>
  C6. For every record and every scoring time the score is an integer from 0 to 100: each
  of the four components stays within its weight (40, 30, 20, 10), their sum is therefore
  at most 100 and is the score itself, the cap changing nothing. The priority is read off
  that score: critical exactly from 80, high exactly from 60 to 79, medium exactly from 40
  to 59, low exactly below 40.
\<close>

theorem score_range_and_priority:
  "0 \<le> sc_score (calculateLeadScore now l) \<and> sc_score (calculateLeadScore now l) \<le> 100 \<and>
   fst (recent_negatives_points now l) \<le> 40 \<and> fst (low_response_points l) \<le> 30 \<and>
   fst (business_size_points l) \<le> 20 \<and> fst (rating_decline_points l) \<le> 10 \<and>
   sc_score (calculateLeadScore now l) =
     fst (recent_negatives_points now l) + fst (low_response_points l)
       + fst (business_size_points l) + fst (rating_decline_points l) \<and>
   (sc_priority (calculateLeadScore now l) = ''critical''
      \<longleftrightarrow> 80 \<le> sc_score (calculateLeadScore now l)) \<and>
   (sc_priority (calculateLeadScore now l) = ''high''
      \<longleftrightarrow> 60 \<le> sc_score (calculateLeadScore now l) \<and> sc_score (calculateLeadScore now l) < 80) \<and>
   (sc_priority (calculateLeadScore now l) = ''medium''
      \<longleftrightarrow> 40 \<le> sc_score (calculateLeadScore now l) \<and> sc_score (calculateLeadScore now l) < 60) \<and>
   (sc_priority (calculateLeadScore now l) = ''low''
      \<longleftrightarrow> sc_score (calculateLeadScore now l) < 40)"
proof -
  have range: "0 \<le> sc_score (calculateLeadScore now l) \<and> sc_score (calculateLeadScore now l) \<le> 100"
    unfolding score_uncapped by (rule raw_score_range)
  have c1: "fst (recent_negatives_points now l) \<le> 40"
    using recent_negatives_points_cases[of now l] by auto
  have c2: "fst (low_response_points l) \<le> 30"
    using low_response_points_cases[of l] by auto
  have c3: "fst (business_size_points l) \<le> 20"
    using business_size_points_cases[of l] by auto
  have c4: "fst (rating_decline_points l) \<le> 10"
    using rating_decline_points_cases[of l] by auto
  have total: "sc_score (calculateLeadScore now l) =
     fst (recent_negatives_points now l) + fst (low_response_points l)
       + fst (business_size_points l) + fst (rating_decline_points l)"
    unfolding score_uncapped by (simp add: raw_score_def)
  note p = getPriorityLevel_iff[of "sc_score (calculateLeadScore now l)",
      folded priority_of_score]
  from range c1 c2 c3 c4 total p show ?thesis by blast
qed

lemma hot_score:
  "sc_score (calculateLeadScore now0 (projr (enrichLead now0 (hot_lead\<lparr>lead_id := ''demo_2''\<rparr>)))) = 100"
  by code_simp

theorem score_range_and_priority_witness:
  "sc_score (calculateLeadScore now0 (projr (enrichLead now0 (hot_lead\<lparr>lead_id := ''demo_2''\<rparr>)))) = 100 \<and>
   sc_priority (calculateLeadScore now0 (projr (enrichLead now0 (hot_lead\<lparr>lead_id := ''demo_2''\<rparr>))))
     = ''critical''"
  using score_range_and_priority[of now0 "projr (enrichLead now0 (hot_lead\<lparr>lead_id := ''demo_2''\<rparr>))"]
  by (simp add: hot_score)

subsection \<open>A record without reviews\<close>

lemma enriched_empty_components:
  assumes "reviews l = Some []" "totalReviews l = 5" "enrichLead now l = Inr e"
  shows "recent_negatives_points now' e = (0, None)"
    and "fst (low_response_points e) = 30"
    and "business_size_points e = (0, None)"
    and "rating_decline_points e = (0, None)"
proof -
  have e: "e = lead.extend l (enriched_lead.fields (Some
     \<lparr>contactInfo = enrichContactInfo l,
      reviewTrend = Some (calculateReviewTrend (Some [])),
      businessSize = estimateBusinessSize l,
      responseRate = Some (calculateResponseRate (Some [])),
      negativeReviewKeywords = projr (extractNegativeKeywords (Some [])),
      lastNegativeReview = projr (getLastNegativeReviewDate now (Some []))\<rparr>))"
    using enrichLead_present[OF assms(1), of now] assms(3) by simp
  show "recent_negatives_points now' e = (0, None)"
    by (simp add: e recent_negatives_points_def countRecentNegatives_def extend_sel assms)
  show "fst (low_response_points e) = 30"
    by (simp add: e low_response_points_def stored_rate_def extend_sel calculateResponseRate_def
        fl_one_fifth weights_def)
  show "business_size_points e = (0, None)"
    by (simp add: e business_size_points_def extend_sel assms)
  show "rating_decline_points e = (0, None)"
    by (simp add: e rating_decline_points_def stored_trend_def stored_trendScore_def extend_sel
        calculateReviewTrend_def)
qed

text \<open>
  C2 (amended). For every record with an empty review list and \<open>totalReviews = 5\<close>, the
  enrichment succeeds and, at any scoring time, the components for recent negatives,
  business size and rating decline award 0 points, while the component for a low response
  rate awards its full 30 points (the response rate of an empty list is 0); the score is
  30 and the priority is low.
\<close>

theorem empty_reviews_score:
  assumes "reviews l = Some []" and "totalReviews l = 5"
  shows "\<exists>e. enrichLead now l = Inr e \<and>
     fst (recent_negatives_points now' e) = 0 \<and>
     fst (low_response_points e) = 30 \<and>
     fst (business_size_points e) = 0 \<and>
     fst (rating_decline_points e) = 0 \<and>
     sc_score (calculateLeadScore now' e) = 30 \<and>
     sc_priority (calculateLeadScore now' e) = ''low''"
proof -
  obtain e where e: "enrichLead now l = Inr e"
    using enrichLead_present[OF assms(1)] by blast
  note c = enriched_empty_components[OF assms e]
  have s: "sc_score (calculateLeadScore now' e) = 30"
    unfolding score_uncapped raw_score_def by (simp add: c)
  have p: "sc_priority (calculateLeadScore now' e) = ''low''"
    unfolding priority_of_score s by (simp add: getPriorityLevel_def)
  show ?thesis using e c s p by simp
qed

theorem empty_reviews_score_witness:
  "\<exists>e. enrichLead now0 base_lead = Inr e \<and>
     sc_score (calculateLeadScore now0 e) = 30 \<and>
     sc_priority (calculateLeadScore now0 e) = ''low''"
proof -
  have r: "reviews base_lead = Some []" and t: "totalReviews base_lead = 5"
    by (simp_all add: base_lead_def)
  from empty_reviews_score[OF r t, of now0 now0] show ?thesis by blast
qed

theorem empty_reviews_score_counterexample:
  "reviews base_lead = Some [] \<and> totalReviews base_lead = 5 \<and>
   enrichLead now0 base_lead = Inr (projr (enrichLead now0 base_lead)) \<and>
   fst (low_response_points (projr (enrichLead now0 base_lead))) = 30 \<and>
   sc_score (calculateLeadScore now0 (projr (enrichLead now0 base_lead))) = 30"
proof -
  have r: "reviews base_lead = Some []" and t: "totalReviews base_lead = 5"
    by (simp_all add: base_lead_def)
  obtain e where e: "enrichLead now0 base_lead = Inr e"
    using enrichLead_present[OF r] by blast
  note c = enriched_empty_components[OF r t e]
  have s: "sc_score (calculateLeadScore now0 e) = 30"
    unfolding score_uncapped raw_score_def by (simp add: c)
  show ?thesis using r t e c s by simp
qed

subsection \<open>Missing and empty review lists\<close>

lemma extractors_accept_empty:
  "calculateReviewTrend (Some []) = calculateReviewTrend None"
  "trend (calculateReviewTrend None) = ''insufficient_data''"
  "change (calculateReviewTrend None) = 0"
  "calculateResponseRate (Some []) = calculateResponseRate None"
  "rate (calculateResponseRate None) = 0"
  "extractNegativeKeywords (Some []) = Inr []"
  "getLastNegativeReviewDate now (Some []) = Inr None"
  by (simp_all add: calculateReviewTrend_def calculateResponseRate_def
      extractNegativeKeywords_def getLastNegativeReviewDate_def by_date_desc_def)

text \<open>
  C3. The review trend and the response rate guard against a missing review list, and the
  business size does not read it; the keyword extraction and the last negative review call
  \<open>reviews.filter\<close> unguarded, so on a record without \<open>reviews\<close> both raise a
  \<open>TypeError\<close>, and with them the enrichment of the whole batch.
\<close>

theorem absent_reviews_raise:
  "extractNegativeKeywords None = Inl TypeError \<and>
   getLastNegativeReviewDate now0 None = Inl TypeError \<and>
   enrichLeads now0 [orphan_lead] = Inl TypeError \<and>
   enrichLeads now0 [base_lead, orphan_lead, hot_lead] = Inl TypeError"
proof -
  have a: "enrichLead now0 orphan_lead = Inl TypeError"
    by (rule enrichLead_absent) (simp add: orphan_lead_def)
  obtain e where e: "enrichLead now0 base_lead = Inr e"
    using enrichLead_present[of base_lead "[]" now0] by (auto simp: base_lead_def)
  show ?thesis
    by (simp add: extractNegativeKeywords_def getLastNegativeReviewDate_def a e)
qed

subsection \<open>Records without a low rating\<close>

lemma by_date_desc_Nil: "by_date_desc [] = []"
  by (simp add: by_date_desc_def)

lemma trend_decline: "trend (calculateReviewTrend (Some decline_reviews)) = ''worsening''"
  by code_simp

lemma decline_ratings_above_two: "list_all (\<lambda>r. \<not> rating r \<le> 2) decline_reviews"
  by (simp add: decline_reviews_def mk_review_def)

text \<open>
  C4 (amended). For every record that carries a review list none of whose reviews has a
  rating of 2 or less, the enrichment succeeds with \<open>lastNegativeReview\<close> absent, and at
  any scoring time the component for recent negatives contributes 0 points.
\<close>

theorem no_low_rating:
  assumes "reviews l = Some rs" and "list_all (\<lambda>r. \<not> rating r \<le> 2) rs"
  shows "\<exists>e b. enrichLead now l = Inr e \<and> enrichment e = Some b \<and>
     lastNegativeReview b = None \<and> fst (recent_negatives_points now' e) = 0"
proof -
  have f: "filter (\<lambda>r. rating r \<le> 2) rs = []"
    using assms(2) by (simp add: list_all_iff filter_empty_conv)
  have g: "filter (\<lambda>r. d \<le> date r \<and> rating r \<le> 2) rs = []" for d
    using assms(2) by (simp add: list_all_iff filter_empty_conv)
  have n: "getLastNegativeReviewDate now (Some rs) = Inr None"
    by (simp add: getLastNegativeReviewDate_def f by_date_desc_Nil)
  have c: "countRecentNegatives now' (lead.extend l x) = 0" for x
    by (simp add: countRecentNegatives_def extend_sel assms(1) g Let_def)
  show ?thesis
    unfolding enrichLead_present[OF assms(1)]
    by (simp add: extend_sel n recent_negatives_points_def c)
qed

theorem no_low_rating_witness:
  "\<exists>e b. enrichLead now0 decline_lead = Inr e \<and> enrichment e = Some b \<and>
     lastNegativeReview b = None \<and> fst (recent_negatives_points now0 e) = 0"
proof -
  have r: "reviews decline_lead = Some decline_reviews"
    by (simp add: decline_lead_def base_lead_def)
  from no_low_rating[OF r decline_ratings_above_two, of now0 now0] show ?thesis .
qed

theorem no_low_rating_counterexample:
  "list_all (\<lambda>r. \<not> rating r \<le> 2) decline_reviews \<and>
   reviews decline_lead = Some decline_reviews \<and>
   enrichLead now0 decline_lead = Inr (projr (enrichLead now0 decline_lead)) \<and>
   fst (rating_decline_points (projr (enrichLead now0 decline_lead))) = 10"
proof -
  have r: "reviews decline_lead = Some decline_reviews"
    by (simp add: decline_lead_def base_lead_def)
  have "fst (rating_decline_points (projr (enrichLead now0 decline_lead))) = 10"
    unfolding enrichLead_present[OF r]
    by (simp add: rating_decline_points_def stored_trend_def extend_sel trend_decline weights_def)
  then show ?thesis
    using r decline_ratings_above_two enrichLead_present[OF r, of now0] by simp
qed

subsection \<open>Which reviews count as negative\<close>

lemma is_negative_stored:
  "is_negative r \<longleftrightarrow> rating r \<le> 2 \<or> (\<exists>s. sentiment r = Some s \<and> s_sentiment s = ''negative'')"
  by (simp add: is_negative_def split: option.split)

lemma extractNegativeKeywords_filter:
  "extractNegativeKeywords (Some rs) =
     Inr (take 5 (by_count_desc (fold count_review (filter is_negative rs) [])))"
  by (simp add: extractNegativeKeywords_def Let_def by_count_desc_def)

lemma label_review_stored:
  "list_all (\<lambda>r. sentiment r = Some (analyzeSentiment grim_analyze (review_text r))) [label_review]"
  by (simp add: label_review_def)

lemma label_review_code: "extractNegativeKeywords (Some [label_review]) = Inr [(''slow'', 1)]"
  by code_simp

lemma pair_code: "extractNegativeKeywords (Some pair_reviews) = Inr [(''slow'', 1)]"
  by code_simp

lemma pair_spec_plain: "spec_negative_keywords plain_analyze pair_reviews = []"
  by code_simp

lemma pair_spec_grim: "spec_negative_keywords grim_analyze pair_reviews = [(''slow'', 2)]"
  by code_simp

lemma pair_all: "take 5 (by_count_desc (fold count_review pair_reviews [])) = [(''slow'', 2)]"
  by code_simp

lemma pair_spec_any:
  "spec_negative_keywords analyze pair_reviews = [] \<or>
   spec_negative_keywords analyze pair_reviews = [(''slow'', 2)]"
proof -
  have same: "spec_is_negative analyze (labelled ''positive'')
      = spec_is_negative analyze (labelled ''negative'')"
    by (simp add: spec_is_negative_def labelled_def)
  show ?thesis
  proof (cases "spec_is_negative analyze (labelled ''negative'')")
    case True
    with same have "filter (spec_is_negative analyze) pair_reviews = pair_reviews"
      by (simp add: pair_reviews_def)
    then show ?thesis by (simp add: spec_negative_keywords_def pair_all)
  next
    case False
    with same have "filter (spec_is_negative analyze) pair_reviews = []"
      by (simp add: pair_reviews_def)
    then show ?thesis by (simp add: spec_negative_keywords_def by_count_desc_def)
  qed
qed

text \<open>
  C1 (amended). The keyword extraction takes as negative the reviews whose rating is 2 or
  less or whose stored sentiment label is negative, and no others; the label is read from
  the field stored on the review, it is not recomputed. When the stored sentiment of every
  review is the analysis that the sentiment adapter makes of the review's text, the result
  is the one that freshly computed labels give.
\<close>

theorem negative_by_stored_label:
  "extractNegativeKeywords (Some rs) =
     Inr (take 5 (by_count_desc (fold count_review
       (filter (\<lambda>r. rating r \<le> 2 \<or> (\<exists>s. sentiment r = Some s \<and> s_sentiment s = ''negative'')) rs)
       []))) \<and>
   ((\<forall>r \<in> set rs. sentiment r = Some (analyzeSentiment analyze (review_text r))) \<longrightarrow>
      extractNegativeKeywords (Some rs) = Inr (spec_negative_keywords analyze rs))"
proof -
  have "filter is_negative rs =
      filter (\<lambda>r. rating r \<le> 2 \<or> (\<exists>s. sentiment r = Some s \<and> s_sentiment s = ''negative'')) rs"
    by (rule filter_cong) (simp_all add: is_negative_stored)
  then have stored: "extractNegativeKeywords (Some rs) =
     Inr (take 5 (by_count_desc (fold count_review
       (filter (\<lambda>r. rating r \<le> 2 \<or> (\<exists>s. sentiment r = Some s \<and> s_sentiment s = ''negative'')) rs)
       [])))"
    by (simp add: extractNegativeKeywords_filter)
  have fresh: "extractNegativeKeywords (Some rs) = Inr (spec_negative_keywords analyze rs)"
    if "\<forall>r \<in> set rs. sentiment r = Some (analyzeSentiment analyze (review_text r))"
  proof -
    have "filter is_negative rs = filter (spec_is_negative analyze) rs"
      using that by (intro filter_cong) (simp_all add: is_negative_def spec_is_negative_def)
    then show ?thesis
      by (simp add: extractNegativeKeywords_filter spec_negative_keywords_def)
  qed
  from stored fresh show ?thesis by blast
qed

theorem negative_by_stored_label_witness:
  "list_all (\<lambda>r. sentiment r = Some (analyzeSentiment grim_analyze (review_text r))) [label_review] \<and>
   rating label_review = 4 \<and>
   extractNegativeKeywords (Some [label_review]) = Inr [(''slow'', 1)] \<and>
   spec_negative_keywords grim_analyze [label_review] = [(''slow'', 1)]"
proof -
  have h: "\<forall>r \<in> set [label_review]. sentiment r = Some (analyzeSentiment grim_analyze (review_text r))"
    using label_review_stored by (simp add: list_all_iff)
  from negative_by_stored_label[of "[label_review]" grim_analyze] h
  have "extractNegativeKeywords (Some [label_review])
      = Inr (spec_negative_keywords grim_analyze [label_review])"
    by blast
  with label_review_code have "spec_negative_keywords grim_analyze [label_review] = [(''slow'', 1)]"
    by simp
  with label_review_stored label_review_code show ?thesis
    by (simp add: label_review_def)
qed

text \<open>
  Two reviews with the same rating 4 and the same text, the first stored with the label
  negative and the second with the label positive: the extraction counts the first one
  only. Labels computed from the text are the same for both, whatever the lexicon, so
  with them the reviews count both or not at all.
\<close>

theorem negative_by_stored_label_counterexample:
  "extractNegativeKeywords (Some pair_reviews) = Inr [(''slow'', 1)] \<and>
   spec_negative_keywords plain_analyze pair_reviews = [] \<and>
   spec_negative_keywords grim_analyze pair_reviews = [(''slow'', 2)] \<and>
   (\<forall>analyze. Inr (spec_negative_keywords analyze pair_reviews)
      \<noteq> extractNegativeKeywords (Some pair_reviews))"
proof -
  have "Inr (spec_negative_keywords analyze pair_reviews)
      \<noteq> extractNegativeKeywords (Some pair_reviews)" for analyze
    using pair_spec_any[of analyze] by (auto simp: pair_code)
  with pair_code pair_spec_plain pair_spec_grim show ?thesis by simp
qed

subsection \<open>The table of found keywords\<close>

lemma tie_code: "extractNegativeKeywords (Some tie_reviews) = Inr [(''rude'', 1), (''slow'', 1)]"
  by code_simp

lemma tie_spec: "spec_keyword_ranking tie_reviews = [(''slow'', 1), (''rude'', 1)]"
  by code_simp

lemma distinct_keyword_list: "distinct keyword_list"
  by code_simp

lemma fold_if_filter:
  "fold (\<lambda>k f. if P k then g k f else f) xs f0 = fold g (filter P xs) f0"
  by (induction xs arbitrary: f0) simp_all

lemma count_review_bump: "count_review r f = fold bump (hits r) f"
  unfolding count_review_def hits_def bump_def by (rule fold_if_filter)

lemma fold_count_review: "fold count_review rs f = fold bump (sightings rs) f"
  by (induction rs arbitrary: f) (simp_all add: sightings_def count_review_bump)

lemma keys_map_set:
  "map fst (map_set f k v) = (if k \<in> set (map fst f) then map fst f else map fst f @ [k])"
  by (induction f) force+

lemma map_get_map_set: "map_get (map_set f k v) k' = (if k' = k then v else map_get f k')"
  by (induction f) auto

lemma keys_bump:
  "map fst (bump k f) = (if k \<in> set (map fst f) then map fst f else map fst f @ [k])"
  by (simp add: bump_def keys_map_set)

lemma map_get_bump: "map_get (bump k f) k' = (if k' = k then map_get f k + 1 else map_get f k')"
  by (simp add: bump_def map_get_map_set)

lemma keys_fold_bump:
  "map fst (fold bump ws f) = map fst f @ filter (\<lambda>k. k \<notin> set (map fst f)) (first_seen ws)"
proof (induction ws arbitrary: f)
  case Nil
  then show ?case by simp
next
  case (Cons w ws)
  show ?case
  proof (cases "w \<in> set (map fst f)")
    case True
    have "filter (\<lambda>k. k \<notin> set (map fst f)) (filter (\<lambda>y. y \<noteq> w) (first_seen ws))
        = filter (\<lambda>k. k \<notin> set (map fst f)) (first_seen ws)"
      using True by (auto intro: filter_cong)
    with True show ?thesis by (simp add: Cons.IH keys_bump)
  next
    case False
    have "filter (\<lambda>k. k \<notin> set (map fst f @ [w])) (first_seen ws)
        = filter (\<lambda>k. k \<notin> set (map fst f)) (filter (\<lambda>y. y \<noteq> w) (first_seen ws))"
      by (auto intro: filter_cong)
    with False show ?thesis by (simp add: Cons.IH keys_bump)
  qed
qed

lemma map_get_fold_bump: "map_get (fold bump ws f) k = map_get f k + count_list ws k"
  by (induction ws arbitrary: f) (simp_all add: map_get_bump)

lemma distinct_keys_table:
  "distinct (map fst f) \<Longrightarrow> f = map (\<lambda>k. (k, map_get f k)) (map fst f)"
proof (induction f)
  case Nil
  then show ?case by simp
next
  case (Cons p f)
  obtain k v where p: "p = (k, v)" by (cases p)
  from Cons.prems p have notin: "k \<notin> set (map fst f)" and d: "distinct (map fst f)"
    by auto
  have "map (\<lambda>k'. (k', map_get (p # f) k')) (map fst f) = map (\<lambda>k'. (k', map_get f k')) (map fst f)"
    using notin p by (intro map_cong) auto
  with Cons.IH[OF d] p show ?case by simp
qed

lemma set_first_seen: "set (first_seen ws) = set ws"
  by (induction ws) auto

lemma distinct_first_seen: "distinct (first_seen ws)"
  by (induction ws) (auto simp: set_first_seen)

lemma fold_bump_table:
  "fold bump ws [] = map (\<lambda>k. (k, count_list ws k)) (first_seen ws)"
proof -
  have keys: "map fst (fold bump ws []) = first_seen ws"
    by (simp add: keys_fold_bump)
  have "distinct (map fst (fold bump ws []))"
    by (simp add: keys distinct_first_seen)
  from distinct_keys_table[OF this] show ?thesis
    by (simp add: keys map_get_fold_bump)
qed

lemma distinct_hits: "distinct (hits r)"
  by (simp add: hits_def distinct_keyword_list)

lemma count_list_distinct: "distinct xs \<Longrightarrow> count_list xs k = (if k \<in> set xs then 1 else 0)"
  by (induction xs) auto

lemma count_sightings:
  "count_list (sightings rs) k = (if k \<in> set keyword_list then mentions k rs else 0)"
proof (induction rs)
  case Nil
  then show ?case by (simp add: sightings_def mentions_def)
next
  case (Cons r rs)
  have "count_list (hits r) k = (if k \<in> set keyword_list \<and> js_includes (review_lower r) k then 1 else 0)"
    by (simp add: count_list_distinct[OF distinct_hits]) (simp add: hits_def)
  with Cons.IH show ?case by (simp add: sightings_def mentions_def)
qed

lemma set_sightings: "set (sightings rs) \<subseteq> set keyword_list"
  by (auto simp: sightings_def hits_def)

lemma found_table:
  "fold count_review rs [] = map (\<lambda>k. (k, mentions k rs)) (first_seen (sightings rs))"
proof -
  have "map (\<lambda>k. (k, count_list (sightings rs) k)) (first_seen (sightings rs))
      = map (\<lambda>k. (k, mentions k rs)) (first_seen (sightings rs))"
    using set_sightings[of rs] by (intro map_cong) (auto simp: count_sightings set_first_seen)
  then show ?thesis by (simp add: fold_count_review fold_bump_table)
qed

lemma repeat_code: "extractNegativeKeywords (Some repeat_reviews) = Inr [(''rude'', 1)]"
  by code_simp

lemma repeat_spec: "spec_keyword_ranking repeat_reviews = [(''rude'', 2)]"
  by code_simp

lemma tie_mentions: "mentions ''rude'' (filter is_negative tie_reviews) = 1"
  by code_simp

lemma mentions_pos:
  assumes "k \<in> set (sightings rs)"
  shows "1 \<le> mentions k rs"
proof -
  from assms obtain r where r: "r \<in> set rs" "js_includes (review_lower r) k"
    by (auto simp: sightings_def hits_def)
  then have "filter (\<lambda>r. js_includes (review_lower r) k) rs \<noteq> []"
    by (auto simp: filter_empty_conv)
  then show ?thesis
    unfolding mentions_def by (cases "filter (\<lambda>r. js_includes (review_lower r) k) rs") simp_all
qed

lemma distinct_keys_by_count_desc:
  "distinct (map fst (by_count_desc m)) = distinct (map fst m)"
proof -
  have "mset (map fst (by_count_desc m)) = mset (map fst m)"
    unfolding by_count_desc_def by simp
  then show ?thesis by (rule mset_eq_imp_distinct_iff)
qed

text \<open>
  C5 (amended). For every review list the keyword extraction returns the first five
  entries of a table sorted by count, highest first. The table holds the terms of the
  lexicon that occur in the lower-cased text of some negative review, each with the number
  of negative reviews whose text contains it (a review counts once, however often the
  term occurs in it), in the order in which the terms were first found: review after
  review, and within a review in the order of the lexicon. The sort is stable, so entries
  of equal count keep that order of first finding. Hence the result has at most 5 entries
  with distinct words of the lexicon and counts of at least 1, and it is empty when no
  review is negative.
\<close>

theorem extractNegativeKeywords_ranking:
  "\<exists>out tbl. extractNegativeKeywords (Some rs) = Inr out \<and>
     tbl = map (\<lambda>k. (k, mentions k (filter is_negative rs)))
             (first_seen (sightings (filter is_negative rs))) \<and>
     out = take 5 (by_count_desc tbl) \<and>
     length out \<le> 5 \<and>
     sorted (map (\<lambda>e. - int (snd e)) out) \<and>
     distinct (map fst out) \<and>
     (\<forall>e \<in> set out. fst e \<in> set keyword_list \<and>
        snd e = mentions (fst e) (filter is_negative rs) \<and> 1 \<le> snd e) \<and>
     (\<forall>c. filter (\<lambda>e. snd e = c) (by_count_desc tbl) = filter (\<lambda>e. snd e = c) tbl) \<and>
     (filter is_negative rs = [] \<longrightarrow> out = [])"
proof -
  define negs where "negs = filter is_negative rs"
  define tbl where "tbl = map (\<lambda>k. (k, mentions k negs)) (first_seen (sightings negs))"
  define out where "out = take 5 (by_count_desc tbl)"
  have empty: "out = []" if "negs = []"
    using that by (simp add: out_def tbl_def sightings_def by_count_desc_def)
  have res: "extractNegativeKeywords (Some rs) = Inr out"
  proof (cases "negs = []")
    case True
    with empty show ?thesis by (simp add: extractNegativeKeywords_def negs_def[symmetric])
  next
    case False
    then show ?thesis
      by (simp add: extractNegativeKeywords_def negs_def[symmetric] found_table out_def tbl_def)
  qed
  have len: "length out \<le> 5"
    by (simp add: out_def)
  have "sorted (map (\<lambda>e. - int (snd e)) (by_count_desc tbl))"
    unfolding by_count_desc_def by (rule sorted_sort_key)
  then have srt: "sorted (map (\<lambda>e. - int (snd e)) out)"
    unfolding out_def take_map[symmetric] by (rule sorted_wrt_take)
  have "distinct (map fst tbl)"
    by (simp add: tbl_def comp_def distinct_first_seen)
  then have "distinct (map fst (by_count_desc tbl))"
    by (simp add: distinct_keys_by_count_desc)
  then have dist: "distinct (map fst out)"
    unfolding out_def take_map[symmetric] by (rule distinct_take)
  have sub: "set out \<subseteq> set tbl"
    using set_take_subset[of 5 "by_count_desc tbl"] by (simp add: out_def by_count_desc_def)
  have ent: "fst e \<in> set keyword_list \<and> snd e = mentions (fst e) negs \<and> 1 \<le> snd e"
    if "e \<in> set out" for e
  proof -
    from that sub have "e \<in> set tbl" by blast
    then obtain k where k: "k \<in> set (sightings negs)" "e = (k, mentions k negs)"
      by (auto simp: tbl_def set_first_seen)
    with set_sightings[of negs] mentions_pos[OF k(1)] show ?thesis by auto
  qed
  have stable: "filter (\<lambda>e. snd e = c) (by_count_desc tbl) = filter (\<lambda>e. snd e = c) tbl" for c
    using sort_key_stable[of "\<lambda>e. - int (snd e)" "- int c" tbl]
    by (simp add: by_count_desc_def)
  show ?thesis
    unfolding negs_def[symmetric]
    using res len srt dist ent stable empty tbl_def out_def by blast
qed

theorem extractNegativeKeywords_ranking_witness:
  "extractNegativeKeywords (Some tie_reviews) = Inr [(''rude'', 1), (''slow'', 1)] \<and>
   ''rude'' \<in> set keyword_list \<and>
   mentions ''rude'' (filter is_negative tie_reviews) = 1"
proof -
  from extractNegativeKeywords_ranking[of tie_reviews] obtain out where
    o: "extractNegativeKeywords (Some tie_reviews) = Inr out" and
    e: "\<forall>e \<in> set out. fst e \<in> set keyword_list \<and>
          snd e = mentions (fst e) (filter is_negative tie_reviews) \<and> 1 \<le> snd e"
    by blast
  from o have out: "out = [(''rude'', 1), (''slow'', 1)]"
    by (simp add: tie_code)
  from e have "''rude'' \<in> set keyword_list \<and> mentions ''rude'' (filter is_negative tie_reviews) = 1"
    unfolding out by simp
  with tie_code show ?thesis by simp
qed

theorem extractNegativeKeywords_ranking_counterexample:
  "extractNegativeKeywords (Some tie_reviews) = Inr [(''rude'', 1), (''slow'', 1)] \<and>
   spec_keyword_ranking tie_reviews = [(''slow'', 1), (''rude'', 1)] \<and>
   extractNegativeKeywords (Some repeat_reviews) = Inr [(''rude'', 1)] \<and>
   spec_keyword_ranking repeat_reviews = [(''rude'', 2)]"
  using tie_code tie_spec repeat_code repeat_spec by simp

subsection \<open>Contact information\<close>

lemma truthy_or_null [simp]: "truthy (or_null v) = truthy v"
  by (simp add: or_null_def truthy_def)

lemma or_null_truthy: "truthy v \<Longrightarrow> or_null v = v"
  by (simp add: or_null_def)

lemma or_null_falsy: "\<not> truthy v \<Longrightarrow> or_null v = None"
  by (simp add: or_null_def)

lemma match_here_length: "match_here ps s = Some m \<Longrightarrow> required ps \<le> length m"
  by (induction ps s arbitrary: m rule: match_here.induct)
    (auto simp: required_def split: if_splits option.splits)

lemma match_here_prefix: "match_here ps s = Some m \<Longrightarrow> prefix m s"
  by (induction ps s arbitrary: m rule: match_here.induct)
    (auto split: if_splits option.splits)

lemma first_match_length: "first_match ps s = Some m \<Longrightarrow> required ps \<le> length m"
  by (induction ps s rule: first_match.induct)
    (auto dest: match_here_length split: option.splits)

lemma first_match_sublist: "first_match ps s = Some m \<Longrightarrow> sublist m s"
proof (induction ps s rule: first_match.induct)
  case (1 ps)
  then show ?case by (auto dest!: match_here_prefix)
next
  case (2 ps c cs)
  show ?case
  proof (cases "match_here ps (c # cs)")
    case None
    with 2 have "sublist m cs" by simp
    then show ?thesis by (simp add: sublist_Cons_right)
  next
    case (Some m')
    with 2 have "prefix m (c # cs)" by (auto dest: match_here_prefix)
    then show ?thesis by (rule prefix_imp_sublist)
  qed
qed

lemma required_phone_pattern: "required phone_pattern = 10"
  by (simp add: required_def phone_pattern_def)

lemma phone_match_truthy: "first_match phone_pattern s = Some m \<Longrightarrow> truthy (Some m)"
  using first_match_length[of phone_pattern s m] by (auto simp: required_phone_pattern truthy_def)

lemma address_phone_truthy: "address_phone l = Some m \<Longrightarrow> truthy (Some m)"
  by (auto simp: address_phone_def dest: phone_match_truthy split: if_splits)

lemma truthy_None [simp]: "\<not> truthy None"
  by (simp add: truthy_def)

lemma extractDomain_None [simp]: "extractDomain None = None"
  by (simp add: extractDomain_def)

lemma truthy_phone_match:
  "truthy (first_match phone_pattern s) \<longleftrightarrow> first_match phone_pattern s \<noteq> None"
  by (cases "first_match phone_pattern s") (auto dest: phone_match_truthy)

lemma truthy_info: "truthy (Some (''info@'' @ d))"
  by (simp add: truthy_def)

lemma contact_phone:
  "c_phone (enrichContactInfo l) =
     (if truthy (phone l) then phone l
      else if truthy (address l) then first_match phone_pattern (the (address l)) else None)"
  by (cases "truthy (phone l)")
    (auto simp: enrichContactInfo_def Let_def address_phone_def or_null_truthy or_null_falsy
      split: option.splits)

lemma contact_website:
  "c_website (enrichContactInfo l) = (if truthy (website l) then website l else None)"
  by (simp add: enrichContactInfo_def Let_def or_null_def)

lemma contact_email:
  "c_email (enrichContactInfo l) =
     (if truthy (email l) then email l
      else if truthy (website l) \<and> truthy (extractDomain (website l))
        then Some (''info@'' @ the (extractDomain (website l))) else None)"
  by (cases "truthy (email l)"; cases "truthy (website l)")
    (simp_all add: enrichContactInfo_def Let_def or_null_truthy or_null_falsy)

lemma contact_emailType:
  "emailType (enrichContactInfo l) =
     (if \<not> truthy (email l) \<and> truthy (website l) \<and> truthy (extractDomain (website l))
      then Some ''estimated'' else None)"
  by (cases "truthy (email l)"; cases "truthy (website l)")
    (simp_all add: enrichContactInfo_def Let_def or_null_truthy or_null_falsy)

lemma contact_hasContact:
  "hasContact (enrichContactInfo l) \<longleftrightarrow>
     truthy (c_phone (enrichContactInfo l)) \<or> truthy (c_email (enrichContactInfo l))
       \<or> truthy (c_website (enrichContactInfo l))"
  by (simp add: enrichContactInfo_def Let_def)

text \<open>
  C9 (amended). For every business record, the contact block copies the phone, the e-mail
  and the website from the record when they are present (not empty). When the record has
  no phone and its address contains a phone number (the pattern of the enricher), the phone
  is the first such match, a piece of the address of at least 10 characters. When the
  e-mail is absent and a website is present whose domain is not empty, the e-mail is
  \<open>info@\<close> followed by the domain and its provenance is \<open>estimated\<close>; otherwise no
  provenance is set. \<open>hasContact\<close> holds if and only if the record has a phone, an e-mail
  or a website, or its address contains a phone number.
\<close>

theorem enrichContactInfo_result:
  "(truthy (phone l) \<longrightarrow> c_phone (enrichContactInfo l) = phone l) \<and>
   (truthy (email l) \<longrightarrow> c_email (enrichContactInfo l) = email l
      \<and> emailType (enrichContactInfo l) = None) \<and>
   (truthy (website l) \<longrightarrow> c_website (enrichContactInfo l) = website l) \<and>
   (\<not> truthy (phone l) \<and> truthy (address l) \<longrightarrow>
      c_phone (enrichContactInfo l) = first_match phone_pattern (the (address l)) \<and>
      (\<forall>m. first_match phone_pattern (the (address l)) = Some m
         \<longrightarrow> sublist m (the (address l)) \<and> 10 \<le> length m)) \<and>
   (\<not> truthy (phone l) \<and> \<not> truthy (address l) \<longrightarrow> c_phone (enrichContactInfo l) = None) \<and>
   (\<not> truthy (email l) \<and> truthy (website l) \<and> truthy (extractDomain (website l)) \<longrightarrow>
      c_email (enrichContactInfo l) = Some (''info@'' @ the (extractDomain (website l))) \<and>
      emailType (enrichContactInfo l) = Some ''estimated'') \<and>
   (\<not> truthy (email l) \<and> \<not> (truthy (website l) \<and> truthy (extractDomain (website l))) \<longrightarrow>
      c_email (enrichContactInfo l) = None \<and> emailType (enrichContactInfo l) = None) \<and>
   (hasContact (enrichContactInfo l) \<longleftrightarrow>
      truthy (phone l) \<or> truthy (email l) \<or> truthy (website l) \<or>
      (truthy (address l) \<and> first_match phone_pattern (the (address l)) \<noteq> None))"
proof -
  have m: "sublist m (the (address l)) \<and> 10 \<le> length m"
    if "first_match phone_pattern (the (address l)) = Some m" for m
    using first_match_sublist[OF that] first_match_length[OF that]
    by (simp add: required_phone_pattern)
  have h: "hasContact (enrichContactInfo l) \<longleftrightarrow>
      truthy (phone l) \<or> truthy (email l) \<or> truthy (website l) \<or>
      (truthy (address l) \<and> first_match phone_pattern (the (address l)) \<noteq> None)"
    unfolding contact_hasContact contact_phone contact_email contact_website
    by (auto simp: truthy_info truthy_phone_match)
  show ?thesis
    using m h by (simp add: contact_phone contact_email contact_website contact_emailType)
qed

lemma site_phone: "c_phone (enrichContactInfo site_lead) = Some ''(512) 555-0142''"
  by code_simp

lemma site_email: "c_email (enrichContactInfo site_lead) = Some ''info@maple-cafe.com''"
  by code_simp

lemma site_domain: "extractDomain (website site_lead) = Some ''maple-cafe.com''"
  by code_simp

lemma address_lead_contact:
  "c_phone (enrichContactInfo address_lead) = Some '' 512-555-0142''"
  "hasContact (enrichContactInfo address_lead)"
  by code_simp+

lemma nbsp_contact:
  "c_phone (enrichContactInfo nbsp_lead) =
     Some ('' 512'' @ [CHR 0xA0] @ ''555'' @ [CHR 0xA0] @ ''0142'')"
  "hasContact (enrichContactInfo nbsp_lead)"
  by code_simp+

lemma nodomain_contact:
  "c_email (enrichContactInfo nodomain_lead) = None"
  "emailType (enrichContactInfo nodomain_lead) = None"
  by code_simp+

lemma mail_contact: "c_email (enrichContactInfo mail_lead) = Some ''owner@maple-cafe.com''"
  by code_simp

theorem enrichContactInfo_result_witness:
  "truthy (phone site_lead) \<and> \<not> truthy (email site_lead) \<and> truthy (website site_lead) \<and>
   truthy (extractDomain (website site_lead)) \<and>
   c_phone (enrichContactInfo site_lead) = Some ''(512) 555-0142'' \<and>
   c_email (enrichContactInfo site_lead) = Some ''info@maple-cafe.com'' \<and>
   emailType (enrichContactInfo site_lead) = Some ''estimated'' \<and>
   hasContact (enrichContactInfo site_lead) \<and>
   \<not> truthy (phone address_lead) \<and> truthy (address address_lead) \<and>
   first_match phone_pattern (the (address address_lead)) = Some '' 512-555-0142'' \<and>
   sublist '' 512-555-0142'' (the (address address_lead)) \<and>
   c_email (enrichContactInfo address_lead) = None \<and>
   truthy (email mail_lead) \<and> \<not> truthy (phone mail_lead) \<and> \<not> truthy (address mail_lead) \<and>
   c_phone (enrichContactInfo mail_lead) = None \<and>
   c_email (enrichContactInfo mail_lead) = email mail_lead"
proof -
  have f: "truthy (phone site_lead)" "\<not> truthy (email site_lead)" "truthy (website site_lead)"
    by (simp_all add: site_lead_def base_lead_def truthy_def)
  have d: "truthy (extractDomain (website site_lead))"
    by (simp add: site_domain truthy_def)
  have g: "\<not> truthy (phone address_lead)" "truthy (address address_lead)"
    "\<not> truthy (email address_lead)" "\<not> truthy (website address_lead)"
    by (simp_all add: address_lead_def base_lead_def truthy_def)
  have h: "truthy (email mail_lead)" "\<not> truthy (phone mail_lead)" "\<not> truthy (address mail_lead)"
    by (simp_all add: mail_lead_def base_lead_def truthy_def)
  from enrichContactInfo_result[of site_lead] f d
  have 1: "c_phone (enrichContactInfo site_lead) = Some ''(512) 555-0142'' \<and>
      c_email (enrichContactInfo site_lead) = Some ''info@maple-cafe.com'' \<and>
      emailType (enrichContactInfo site_lead) = Some ''estimated'' \<and>
      hasContact (enrichContactInfo site_lead)"
    by (simp add: site_phone site_email)
  from enrichContactInfo_result[of address_lead] g
  have 2: "first_match phone_pattern (the (address address_lead)) = Some '' 512-555-0142'' \<and>
      sublist '' 512-555-0142'' (the (address address_lead)) \<and>
      c_email (enrichContactInfo address_lead) = None"
    by (simp add: address_lead_contact)
  from enrichContactInfo_result[of mail_lead] h
  have 3: "c_phone (enrichContactInfo mail_lead) = None \<and>
      c_email (enrichContactInfo mail_lead) = email mail_lead"
    by simp
  from f d g h 1 2 3 show ?thesis by simp
qed

theorem enrichContactInfo_result_counterexample:
  "\<not> truthy (phone address_lead) \<and> \<not> truthy (email address_lead) \<and>
   \<not> truthy (website address_lead) \<and>
   c_phone (enrichContactInfo address_lead) = Some '' 512-555-0142'' \<and>
   hasContact (enrichContactInfo address_lead) \<and>
   \<not> truthy (email nodomain_lead) \<and> truthy (website nodomain_lead) \<and>
   c_email (enrichContactInfo nodomain_lead) = None \<and>
   emailType (enrichContactInfo nodomain_lead) = None"
  using address_lead_contact nodomain_contact
  by (simp add: address_lead_def nodomain_lead_def base_lead_def truthy_def)

subsection \<open>The enrichment of a batch\<close>

lemma enrichLead_shape:
  assumes "reviews l \<noteq> None"
  shows "\<exists>b. enrichLead now l = Inr (lead.extend l (enriched_lead.fields (Some b)))"
  using assms enrichLead_present[of l _ now] by (cases "reviews l") auto

lemma enrichLeads_shape:
  assumes "list_all (\<lambda>l. reviews l \<noteq> None) leads"
  shows "\<exists>bs. length bs = length leads \<and>
     enrichLeads now leads =
       Inr (map (\<lambda>(l, b). lead.extend l (enriched_lead.fields (Some b))) (zip leads bs))"
  using assms
proof (induction leads)
  case Nil
  then show ?case by simp
next
  case (Cons l leads)
  then obtain bs where bs: "length bs = length leads"
    "enrichLeads now leads =
       Inr (map (\<lambda>(l, b). lead.extend l (enriched_lead.fields (Some b))) (zip leads bs))"
    by auto
  from Cons.prems obtain b where
    b: "enrichLead now l = Inr (lead.extend l (enriched_lead.fields (Some b)))"
    using enrichLead_shape[of l now] by auto
  show ?case
    using bs b by (intro exI[of _ "b # bs"]) simp
qed

text \<open>
  Where every record carries a review list, \<open>enrichLeads\<close> returns a list of the same
  length in the same order, and the record at each position is the input record at that
  position extended by the one field \<open>enrichment\<close>, which is present: cutting that field
  off gives the input record back, every field of it unchanged.
\<close>

lemma enrichLeads_frame_present:
  assumes "list_all (\<lambda>l. reviews l \<noteq> None) leads"
  shows "\<exists>out. enrichLeads now leads = Inr out \<and>
     length out = length leads \<and>
     map lead.truncate out = leads \<and>
     (\<forall>i < length leads.
        enrichment (out ! i) \<noteq> None \<and>
        out ! i = lead.extend (leads ! i) (enriched_lead.fields (enrichment (out ! i))))"
proof -
  from enrichLeads_shape[OF assms, of now] obtain bs where
    len: "length bs = length leads" and
    res: "enrichLeads now leads =
       Inr (map (\<lambda>(l, b). lead.extend l (enriched_lead.fields (Some b))) (zip leads bs))"
    by blast
  define out where
    "out = map (\<lambda>(l, b). lead.extend l (enriched_lead.fields (Some b))) (zip leads bs)"
  have l: "length out = length leads"
    by (simp add: out_def len)
  have nth: "out ! i = lead.extend (leads ! i) (enriched_lead.fields (Some (bs ! i)))"
    if "i < length leads" for i
    using that len by (simp add: out_def)
  have t: "map lead.truncate out = leads"
    using l by (auto simp: list_eq_iff_nth_eq nth extend_sel)
  have e: "enrichment (out ! i) \<noteq> None \<and>
      out ! i = lead.extend (leads ! i) (enriched_lead.fields (enrichment (out ! i)))"
    if "i < length leads" for i
    using nth[OF that] by (simp add: extend_sel)
  from res l t e show ?thesis
    unfolding out_def[symmetric] by blast
qed

lemma enrichLeads_absent:
  "\<not> list_all (\<lambda>l. reviews l \<noteq> None) leads \<Longrightarrow> enrichLeads now leads = Inl TypeError"
proof (induction leads)
  case Nil
  then show ?case by simp
next
  case (Cons l leads)
  show ?case
  proof (cases "reviews l")
    case None
    then show ?thesis by (simp add: enrichLead_absent)
  next
    case (Some rs)
    with Cons.prems have "\<not> list_all (\<lambda>l. reviews l \<noteq> None) leads" by simp
    then have "enrichLeads now leads = Inl TypeError" by (rule Cons.IH)
    then show ?thesis
      using enrichLead_present[OF Some, of now] by simp
  qed
qed

text \<open>
  C10. The frame property holds for the records that carry a review list, and for them
  only: one record without the property \<open>reviews\<close> makes \<open>enrichLeads\<close> raise, so that no
  list is returned at all, neither for that record nor for the well-formed records around
  it. The record \<open>hot_lead\<close> alone is enriched as the claim says; next to a record without
  reviews it is lost with the batch.
\<close>

theorem enrichLeads_aborts:
  "(enrichLeads now leads = Inl TypeError) = (\<not> list_all (\<lambda>l. reviews l \<noteq> None) leads) \<and>
   (\<exists>out. enrichLeads now0 [hot_lead] = Inr out \<and> length out = 1 \<and>
      map lead.truncate out = [hot_lead]) \<and>
   enrichLeads now0 [hot_lead, orphan_lead] = Inl TypeError \<and>
   enrichLeads now0 [orphan_lead, hot_lead] = Inl TypeError"
proof -
  have p: "list_all (\<lambda>l. reviews l \<noteq> None) [hot_lead]"
    by (simp add: hot_lead_def base_lead_def)
  have a: "\<not> list_all (\<lambda>l. reviews l \<noteq> None) [hot_lead, orphan_lead]"
    "\<not> list_all (\<lambda>l. reviews l \<noteq> None) [orphan_lead, hot_lead]"
    by (simp_all add: orphan_lead_def)
  have "\<exists>out. enrichLeads now0 [hot_lead] = Inr out \<and> length out = 1 \<and>
      map lead.truncate out = [hot_lead]"
    using enrichLeads_frame_present[OF p, of now0] by auto
  moreover have "(enrichLeads now leads = Inl TypeError) =
      (\<not> list_all (\<lambda>l. reviews l \<noteq> None) leads)"
  proof (cases "list_all (\<lambda>l. reviews l \<noteq> None) leads")
    case True
    from enrichLeads_frame_present[OF True, of now] obtain out where
      "enrichLeads now leads = Inr out" by (elim exE conjE)
    with True show ?thesis by simp
  next
    case False
    with enrichLeads_absent[OF False, of now] show ?thesis by simp
  qed
  ultimately show ?thesis
    using enrichLeads_absent[OF a(1), of now0] enrichLeads_absent[OF a(2), of now0]
    by (intro conjI)
qed

subsection \<open>Sorting through references\<close>

lemma insort_key_map:
  "insort_key f (g x) (map g ys) = map g (insort_key (\<lambda>r. f (g r)) x ys)"
  by (induction ys) simp_all

lemma sort_key_map: "sort_key f (map g xs) = map g (sort_key (\<lambda>r. f (g r)) xs)"
proof (induction xs)
  case Nil
  then show ?case by simp
next
  case (Cons x xs)
  have "sort_key f (map g (x # xs)) = insort_key f (g x) (sort_key f (map g xs))"
    by simp
  also have "\<dots> = insort_key f (g x) (map g (sort_key (\<lambda>r. f (g r)) xs))"
    by (simp only: Cons.IH)
  also have "\<dots> = map g (insort_key (\<lambda>r. f (g r)) x (sort_key (\<lambda>r. f (g r)) xs))"
    by (rule insort_key_map)
  finally show ?case by simp
qed

lemma insort_key_agree:
  "f x = g x \<Longrightarrow> \<forall>y \<in> set ys. f y = g y \<Longrightarrow> insort_key f x ys = insort_key g x ys"
  by (induction ys) simp_all

lemma sort_key_agree: "\<forall>x \<in> set xs. f x = g x \<Longrightarrow> sort_key f xs = sort_key g xs"
proof (induction xs)
  case Nil
  then show ?case by simp
next
  case (Cons x xs)
  then have ih: "sort_key f xs = sort_key g xs" by simp
  have "insort_key f x (sort_key g xs) = insort_key g x (sort_key g xs)"
    using Cons.prems by (intro insort_key_agree) simp_all
  with ih show ?case by simp
qed

lemma read_all_map:
  "\<forall>r \<in> set rs. f r = Some (g r) \<Longrightarrow> read_all f rs = Some (map g rs)"
  by (induction rs) simp_all

lemma read_all_agree:
  "\<forall>r \<in> set rs. f r = f' r \<Longrightarrow> read_all f rs = read_all f' rs"
  by (induction rs) (simp_all split: option.splits)

lemma read_all_length: "read_all f rs = Some xs \<Longrightarrow> length xs = length rs"
  by (induction rs arbitrary: xs) (auto split: option.splits)

lemma read_all_in_range:
  "read_all (read_lead h) rs = Some xs \<Longrightarrow> \<forall>r \<in> set rs. r < length h"
  by (induction rs arbitrary: xs) (auto simp: read_lead_def split: option.splits if_splits)

lemma map_nth_offset: "map (\<lambda>r. xs ! (r - n)) [n ..< n + length xs] = xs"
  by (rule nth_equalityI) simp_all

lemma score_lead_fields:
  "enriched_lead.truncate (score_lead now l) = l"
  "score (score_lead now l) = sc_score (calculateLeadScore now l)"
  "scoringDetails (score_lead now l) = sc_details (calculateLeadScore now l)"
  "priority (score_lead now l) = sc_priority (calculateLeadScore now l)"
  by (simp_all add: score_lead_def Let_def enriched_lead.extend_def scored_lead.fields_def
      enriched_lead.truncate_def)

text \<open>
  C7. Let the store hold an array of references to enriched records. \<open>scoreAllLeads\<close>
  returns a new array and leaves every cell that existed as it was, so the input array and
  the records in it are not changed. The new array holds one scored record for every input
  record, the input record with the score, the details and the priority of the rubric
  added, sorted by score, highest first; the sort is stable, so the records of any one
  score stand in the order of the input.
\<close>

theorem scoreAllLeads_sorted_stable:
  assumes "read_array h a = Some refs" and "read_all (read_lead h) refs = Some ls"
  shows "\<exists>a' h' out. scoreAllLeads now h a = Inr (a', h') \<and>
     take (length h) h' = h \<and>
     read_array h' a = Some refs \<and> read_all (read_lead h') refs = Some ls \<and>
     length h \<le> a' \<and>
     scored_list h' a' = Some out \<and>
     out = sort_key (\<lambda>s. - score s) (map (score_lead now) ls) \<and>
     mset out = mset (map (score_lead now) ls) \<and>
     sorted_wrt (\<lambda>x y. score x \<ge> score y) out \<and>
     (\<forall>k. filter (\<lambda>s. score s = k) out = filter (\<lambda>s. score s = k) (map (score_lead now) ls)) \<and>
     map enriched_lead.truncate (map (score_lead now) ls) = ls \<and>
     map score (map (score_lead now) ls) = map (\<lambda>l. sc_score (calculateLeadScore now l)) ls \<and>
     map priority (map (score_lead now) ls) = map (\<lambda>l. sc_priority (calculateLeadScore now l)) ls"
proof -
  define objs where "objs = map (score_lead now) ls"
  define h1 where "h1 = h @ map ScoredObj objs"
  define rs where "rs = [length h ..< length h + length objs]"
  define a' where "a' = length h1"
  define h2 where "h2 = h1 @ [Arr rs]"
  define srt where "srt = sort_key (\<lambda>r. - score_at h2 r) rs"
  define h3 where "h3 = h2[a' := Arr srt]"
  define g where "g = (\<lambda>r. objs ! (r - length h))"
  define out where "out = sort_key (\<lambda>s. - score s) objs"
  have a_lt: "a < length h"
    using assms(1) by (auto simp: read_array_def split: if_splits)
  have h3_eq: "h3 = h1 @ [Arr srt]"
    by (simp add: h3_def h2_def a'_def)
  have res: "scoreAllLeads now h a = Inr (a', h3)"
    unfolding h3_eq
    by (simp add: scoreAllLeads_def assms alloc_all_def Let_def srt_def h2_def a'_def
        rs_def h1_def objs_def comp_def)
  have len: "length h \<le> a'"
    by (simp add: a'_def h1_def)
  have frame: "take (length h) h3 = h"
    using len by (simp add: h3_def h2_def h1_def)
  have old: "h3 ! x = h ! x" if "x < length h" for x
    using that frame by (metis nth_take)
  have len3: "length h \<le> length h3"
    by (simp add: h3_def h2_def h1_def)
  have arr: "read_array h3 a = Some refs"
    using assms(1) a_lt len3 by (simp add: read_array_def old)
  have "\<forall>r \<in> set refs. read_lead h3 r = read_lead h r"
    using read_all_in_range[OF assms(2)] len3 by (auto simp: read_lead_def old)
  then have leads: "read_all (read_lead h3) refs = Some ls"
    using assms(2) read_all_agree[of refs "read_lead h3" "read_lead h"] by simp
  have cell2: "read_scored h2 r = Some (g r)" if "r \<in> set rs" for r
    using that by (auto simp: read_scored_def h2_def h1_def rs_def g_def nth_append)
  have cell3: "read_scored h3 r = Some (g r)" if "r \<in> set rs" for r
  proof -
    from that have "r < a'" by (simp add: rs_def a'_def h1_def)
    then have "h3 ! r = h2 ! r" "r < length h3"
      by (simp_all add: h3_def h2_def a'_def nth_append)
    with cell2[OF that] show ?thesis
      by (auto simp: read_scored_def split: if_splits)
  qed
  have "\<forall>r \<in> set rs. - score_at h2 r = - score (g r)"
    by (simp add: score_at_def cell2)
  then have srt: "srt = sort_key (\<lambda>r. - score (g r)) rs"
    unfolding srt_def by (rule sort_key_agree)
  have grs: "map g rs = objs"
    unfolding g_def rs_def by (rule map_nth_offset)
  have new: "read_array h3 a' = Some srt"
    by (simp add: read_array_def h3_def h2_def a'_def)
  have "\<forall>r \<in> set srt. read_scored h3 r = Some (g r)"
    by (simp add: srt cell3)
  then have "read_all (read_scored h3) srt = Some (map g srt)"
    by (rule read_all_map)
  also have "map g srt = out"
    unfolding srt out_def
    using sort_key_map[of "\<lambda>s. - score s" g rs] by (simp add: grs)
  finally have lst: "scored_list h3 a' = Some out"
    by (simp add: scored_list_def new)
  have ms: "mset out = mset objs"
    by (simp add: out_def)
  have "sorted (map (\<lambda>s. - score s) out)"
    unfolding out_def by (rule sorted_sort_key)
  then have desc: "sorted_wrt (\<lambda>x y. score x \<ge> score y) out"
    by (simp add: sorted_map)
  have stable: "filter (\<lambda>s. score s = k) out = filter (\<lambda>s. score s = k) objs" for k
    using sort_key_stable[of "\<lambda>s. - score s" "- k" objs] by (simp add: out_def)
  have tr: "map enriched_lead.truncate objs = ls"
    by (simp add: objs_def comp_def score_lead_fields)
  have sc: "map score objs = map (\<lambda>l. sc_score (calculateLeadScore now l)) ls"
    by (simp add: objs_def comp_def score_lead_fields)
  have pr: "map priority objs = map (\<lambda>l. sc_priority (calculateLeadScore now l)) ls"
    by (simp add: objs_def comp_def score_lead_fields)
  show ?thesis
    using res frame arr leads len lst ms desc stable tr sc pr out_def
    unfolding objs_def by blast
qed

lemma score_lead_id: "lead_id (score_lead now l) = lead_id l"
  by (simp add: score_lead_def Let_def enriched_lead.extend_def scored_lead.fields_def)

lemma enriched_id:
  "reviews l \<noteq> None \<Longrightarrow> lead_id (projr (enrichLead now l)) = lead_id l"
  using enrichLead_present[of l _ now]
  by (cases "reviews l") (simp_all add: lead.extend_def enriched_lead.fields_def)

lemma empty_lead_score:
  assumes "reviews l = Some []" and "totalReviews l = 5"
  shows "sc_score (calculateLeadScore now' (projr (enrichLead now l))) = 30"
proof -
  have e: "enrichLead now l = Inr (projr (enrichLead now l))"
    using enrichLead_present[OF assms(1), of now] by simp
  note c = enriched_empty_components[OF assms e]
  show ?thesis
    unfolding score_uncapped raw_score_def by (simp add: c)
qed

lemma batch0_scores: "map (\<lambda>l. sc_score (calculateLeadScore now0 l)) batch0 = [30, 100, 30]"
  by (simp add: batch0_def hot_score empty_lead_score base_lead_def)

lemma batch0_ids: "map lead_id batch0 = [''demo_1'', ''demo_2'', ''demo_3'']"
  by (simp add: batch0_def enriched_id base_lead_def hot_lead_def)

lemma store0_reads:
  "read_array store0 3 = Some [0, 1, 2]"
  "read_all (read_lead store0) [0, 1, 2] = Some batch0"
  by (simp_all add: store0_def batch0_def read_array_def read_lead_def)

theorem scoreAllLeads_sorted_stable_witness:
  "read_array store0 3 = Some [0, 1, 2] \<and>
   read_all (read_lead store0) [0, 1, 2] = Some batch0 \<and>
   (\<exists>a' h' out. scoreAllLeads now0 store0 3 = Inr (a', h') \<and>
      take 4 h' = store0 \<and> scored_list h' a' = Some out \<and>
      map lead_id out = [''demo_2'', ''demo_1'', ''demo_3''] \<and>
      map score out = [100, 30, 30])"
proof -
  from scoreAllLeads_sorted_stable[OF store0_reads, of now0] obtain a' h' out where
    r: "scoreAllLeads now0 store0 3 = Inr (a', h')" and
    f: "take (length store0) h' = store0" and
    l: "scored_list h' a' = Some out" and
    o: "out = sort_key (\<lambda>s. - score s) (map (score_lead now0) batch0)"
    by blast
  have len: "length store0 = 4"
    by (simp add: store0_def batch0_def)
  obtain e1 e2 e3 where b: "batch0 = [e1, e2, e3]"
    by (simp add: batch0_def)
  from batch0_scores[unfolded b] have s: "score (score_lead now0 e1) = 30"
    "score (score_lead now0 e2) = 100" "score (score_lead now0 e3) = 30"
    by (simp_all add: score_lead_fields)
  from batch0_ids[unfolded b] have i: "lead_id (score_lead now0 e1) = ''demo_1''"
    "lead_id (score_lead now0 e2) = ''demo_2''" "lead_id (score_lead now0 e3) = ''demo_3''"
    by (simp_all add: score_lead_id)
  have "out = [score_lead now0 e2, score_lead now0 e1, score_lead now0 e3]"
    unfolding o b by (simp add: s)
  then have "map lead_id out = [''demo_2'', ''demo_1'', ''demo_3'']" "map score out = [100, 30, 30]"
    by (simp_all add: s i)
  with r f l len store0_reads show ?thesis by auto
qed

subsection \<open>Integers as numbers\<close>

lemma round_half_even_of_int [simp]: "round_half_even (of_int m) = m"
  by (simp add: round_half_even_def)

lemma bitlen_one: "bitlen 1 = 1"
  by (simp add: bitlen_alt_def)

lemma ilog2_of_int_le:
  assumes "0 < k" and "k < 2 ^ 53"
  shows "ilog2 (of_int k) \<le> 52"
proof -
  have "bitlen k \<le> 53"
    using assms by (simp add: bitlen_le_iff_power)
  then show ?thesis
    using assms by (simp add: ilog2_def Let_def bitlen_one)
qed

lemma fl_of_int:
  assumes "0 \<le> k" and "k < 2 ^ 53"
  shows "fl (of_int k) = of_int k"
proof (cases "k = 0")
  case True
  then show ?thesis by (simp add: fl_def)
next
  case False
  with assms have pos: "0 < k" by simp
  define n where "n = nat (52 - ilog2 (of_int k))"
  have e: "ilog2 (of_int k) - 52 = - int n"
    using ilog2_of_int_le[OF pos assms(2)] by (simp add: n_def)
  have u: "pow2 (ilog2 (of_int k) - 52) = 1 / 2 ^ n"
    unfolding e by (simp add: pow2_def)
  have m: "\<bar>of_int k :: rat\<bar> / (1 / 2 ^ n) = of_int (k * 2 ^ n)"
    using pos by simp
  have nz: "(of_int k :: rat) \<noteq> 0" and sg: "sgn (of_int k :: rat) = 1"
    using pos by simp_all
  have "fl (of_int k) = 1 * of_int (round_half_even (of_int (k * 2 ^ n))) * (1 / 2 ^ n)"
    unfolding fl_def Let_def u m sg using nz by (simp only: if_False)
  also have "\<dots> = of_int (k * 2 ^ n) / 2 ^ n"
    by (simp only: round_half_even_of_int mult_1 times_divide_eq_right mult_1_right)
  also have "\<dots> = of_int k"
    by simp
  finally show ?thesis .
qed

subsection \<open>The review trend\<close>

lemma edge_trend: "trend (calculateReviewTrend (Some edge_reviews)) = ''improving''"
  by code_simp

lemma edge_change: "change (calculateReviewTrend (Some edge_reviews)) = fl (3 / 10)"
  by code_simp

lemma edge_length: "length edge_reviews = 15"
  by (simp add: edge_reviews_def)

lemma decline_change: "change (calculateReviewTrend (Some decline_reviews)) = - 2"
  by code_simp

lemma js_num_rating: "0 \<le> i \<Longrightarrow> i < 2 ^ 53 \<Longrightarrow> js_num i = of_int i"
  by (simp add: js_num_def fl_of_int)

lemma sum_list_nonneg_ratings: "\<forall>r \<in> set rs. 0 \<le> rating r \<Longrightarrow> 0 \<le> sum_list (map rating rs)"
  by (induction rs) simp_all

lemma fold_ratings_exact:
  assumes "\<forall>r \<in> set rs. 0 \<le> rating r" and "0 \<le> a"
    and "a + sum_list (map rating rs) < 2 ^ 53"
  shows "fold (\<lambda>r acc. js_add acc (js_num (rating r))) rs (of_int a)
     = of_int (a + sum_list (map rating rs))"
  using assms
proof (induction rs arbitrary: a)
  case Nil
  then show ?case by simp
next
  case (Cons r rs)
  have rest: "0 \<le> sum_list (map rating rs)"
    using Cons.prems(1) by (intro sum_list_nonneg_ratings) simp
  have r0: "0 \<le> rating r"
    using Cons.prems(1) by simp
  with rest Cons.prems have small: "rating r < 2 ^ 53" "a + rating r < 2 ^ 53" "0 \<le> a + rating r"
    by simp_all
  have "js_add (of_int a) (js_num (rating r)) = fl (of_int (a + rating r))"
    by (simp add: js_add_def js_num_rating[OF r0 small(1)])
  also have "\<dots> = of_int (a + rating r)"
    using small by (intro fl_of_int)
  finally have step: "js_add (of_int a) (js_num (rating r)) = of_int (a + rating r)" .
  have "fold (\<lambda>r acc. js_add acc (js_num (rating r))) rs (of_int (a + rating r))
      = of_int (a + rating r + sum_list (map rating rs))"
    using Cons.prems small by (intro Cons.IH) (simp_all add: add.assoc)
  then show ?case
    by (simp add: step add.assoc)
qed

lemma averageRating_mean:
  assumes "\<forall>r \<in> set rs. 0 \<le> rating r" and "sum_list (map rating rs) < 2 ^ 53"
  shows "averageRating rs =
     (if rs = [] then 0 else fl (of_int (sum_list (map rating rs)) / of_nat (length rs)))"
  using fold_ratings_exact[OF assms(1), of 0] assms(2)
  by (simp add: averageRating_def js_div_def)

lemma round_close: "\<bar>of_int \<lfloor>y + 1 / 2\<rfloor> - y\<bar> \<le> 1 / 2" for y :: rat
proof -
  have "of_int \<lfloor>y + 1 / 2\<rfloor> \<le> y + 1 / 2" "y + 1 / 2 < of_int \<lfloor>y + 1 / 2\<rfloor> + 1"
    using floor_correct[of "y + 1 / 2"] by simp_all
  then show ?thesis by linarith
qed

lemma toFixed2_close: "\<bar>of_int (toFixed2 x) / 100 - x\<bar> \<le> 1 / 200"
proof (cases "x < 0")
  case True
  have c: "\<bar>of_int \<lfloor>- x * 100 + 1 / 2\<rfloor> - (- x * 100)\<bar> \<le> 1 / 2"
    by (rule round_close)
  have t: "toFixed2 x = - \<lfloor>- x * 100 + 1 / 2\<rfloor>"
    using True by (simp add: toFixed2_def)
  show ?thesis
    unfolding t of_int_minus using c by linarith
next
  case False
  have c: "\<bar>of_int \<lfloor>x * 100 + 1 / 2\<rfloor> - x * 100\<bar> \<le> 1 / 2"
    by (rule round_close)
  have t: "toFixed2 x = \<lfloor>x * 100 + 1 / 2\<rfloor>"
    using False by (simp add: toFixed2_def)
  show ?thesis
    unfolding t using c by linarith
qed

lemma length_halves:
  "length (newer_half rs) = length rs div 2"
  "length (older_half rs) = length rs - length rs div 2"
  by (simp_all add: newer_half_def older_half_def by_date_desc_def)

lemma halves:
  "newer_half rs @ older_half rs = by_date_desc rs"
  "mset (by_date_desc rs) = mset rs"
  by (simp_all add: newer_half_def older_half_def by_date_desc_def)

lemma sum_halves:
  "sum_list (map rating (newer_half rs)) + sum_list (map rating (older_half rs))
     = sum_list (map rating rs)"
proof -
  have "sum_list (map rating (newer_half rs @ older_half rs)) = sum_list (map rating rs)"
    unfolding halves(1) using halves(2)[of rs]
    by (metis mset_map sum_mset_sum_list)
  then show ?thesis by simp
qed

lemma set_halves:
  "set (newer_half rs) \<subseteq> set rs" "set (older_half rs) \<subseteq> set rs"
  using set_take_subset[of "length rs div 2" "by_date_desc rs"]
    set_drop_subset[of "length rs div 2" "by_date_desc rs"]
  by (simp_all add: newer_half_def older_half_def by_date_desc_def)

lemma halves_mean:
  assumes "\<forall>r \<in> set rs. 0 \<le> rating r" and "sum_list (map rating rs) < 2 ^ 53"
    and "2 \<le> length rs"
  shows "averageRating (newer_half rs) =
      fl (of_int (sum_list (map rating (newer_half rs))) / of_nat (length (newer_half rs)))"
    and "averageRating (older_half rs) =
      fl (of_int (sum_list (map rating (older_half rs))) / of_nat (length (older_half rs)))"
proof -
  have n: "\<forall>r \<in> set (newer_half rs). 0 \<le> rating r" and o: "\<forall>r \<in> set (older_half rs). 0 \<le> rating r"
    using assms(1) set_halves[of rs] by blast+
  have "0 \<le> sum_list (map rating (newer_half rs))" "0 \<le> sum_list (map rating (older_half rs))"
    using n o by (simp_all add: sum_list_nonneg_ratings)
  with sum_halves[of rs] assms(2)
  have b: "sum_list (map rating (newer_half rs)) < 2 ^ 53" "sum_list (map rating (older_half rs)) < 2 ^ 53"
    by linarith+
  have "0 < length (newer_half rs)" "0 < length (older_half rs)"
    using assms(3) by (simp_all add: length_halves)
  then have ne: "newer_half rs \<noteq> []" "older_half rs \<noteq> []"
    by auto
  show "averageRating (newer_half rs) =
      fl (of_int (sum_list (map rating (newer_half rs))) / of_nat (length (newer_half rs)))"
    using averageRating_mean[OF n b(1)] ne by simp
  show "averageRating (older_half rs) =
      fl (of_int (sum_list (map rating (older_half rs))) / of_nat (length (older_half rs)))"
    using averageRating_mean[OF o b(2)] ne by simp
qed

lemma by_date_desc_sorted: "sorted_wrt (\<lambda>x y. date x \<ge> date y) (by_date_desc rs)"
proof -
  have "sorted (map (\<lambda>r. - date r) (by_date_desc rs))"
    unfolding by_date_desc_def by (rule sorted_sort_key)
  then show ?thesis by (simp add: sorted_map)
qed

lemma by_date_desc_stable:
  "filter (\<lambda>r. date r = t) (by_date_desc rs) = filter (\<lambda>r. date r = t) rs"
  using sort_key_stable[of "\<lambda>r. - date r" "- t" rs] by (simp add: by_date_desc_def)

lemma trend_few:
  "length rs < 5 \<Longrightarrow> calculateReviewTrend (Some rs) = calculateReviewTrend None"
  by (simp add: calculateReviewTrend_def)

lemma trend_many:
  assumes "5 \<le> length rs"
  shows "change (calculateReviewTrend (Some rs)) = fixed2 (trend_change rs)"
    and "trend (calculateReviewTrend (Some rs)) =
      (if trend_change rs < - fl (3 / 10) then ''worsening''
       else if fl (3 / 10) < trend_change rs then ''improving'' else ''stable'')"
    and "trendScore (calculateReviewTrend (Some rs)) =
      Some (if trend_change rs < - fl (5 / 10) then ''critical''
            else if trend_change rs < - fl (3 / 10) then ''high'' else ''moderate'')"
    and "recentAvg (calculateReviewTrend (Some rs)) = Some (fixed2 (averageRating (newer_half rs)))"
    and "olderAvg (calculateReviewTrend (Some rs)) = Some (fixed2 (averageRating (older_half rs)))"
  using assms
  by (simp_all add: calculateReviewTrend_def Let_def trend_change_def newer_half_def older_half_def
      by_date_desc_def)

text \<open>
  C8 (amended). For every record with fewer than 5 reviews, or without a review list, the
  review trend is \<open>insufficient_data\<close> with change 0. For every record with at least 5
  reviews, the reviews are sorted by date, newest first (a stable sort), and split at the
  floor of half the count into a newer and an older half; the difference is the mean
  rating of the newer half minus that of the older half, computed in double precision
  (for ratings that are not negative, each mean is the double nearest to the exact mean).
  The reported change is the difference rounded to 2 decimals. The trend and the severity
  are decided by the difference before it is rounded: worsening below -0.3, improving
  above 0.3, else stable; critical below -0.5, high below -0.3, else moderate.
\<close>

theorem calculateReviewTrend_result:
  "trend (calculateReviewTrend None) = ''insufficient_data'' \<and>
   change (calculateReviewTrend None) = 0 \<and>
   (length rs < 5 \<longrightarrow>
      trend (calculateReviewTrend (Some rs)) = ''insufficient_data'' \<and>
      change (calculateReviewTrend (Some rs)) = 0) \<and>
   (5 \<le> length rs \<longrightarrow>
      mset (by_date_desc rs) = mset rs \<and>
      sorted_wrt (\<lambda>x y. date x \<ge> date y) (by_date_desc rs) \<and>
      (\<forall>t. filter (\<lambda>r. date r = t) (by_date_desc rs) = filter (\<lambda>r. date r = t) rs) \<and>
      newer_half rs = take (length rs div 2) (by_date_desc rs) \<and>
      older_half rs = drop (length rs div 2) (by_date_desc rs) \<and>
      trend_change rs = fl (averageRating (newer_half rs) - averageRating (older_half rs)) \<and>
      change (calculateReviewTrend (Some rs)) = fl (of_int (toFixed2 (trend_change rs)) / 100) \<and>
      \<bar>of_int (toFixed2 (trend_change rs)) / 100 - trend_change rs\<bar> \<le> 1 / 200 \<and>
      trend (calculateReviewTrend (Some rs)) =
        (if trend_change rs < - fl (3 / 10) then ''worsening''
         else if fl (3 / 10) < trend_change rs then ''improving'' else ''stable'') \<and>
      trendScore (calculateReviewTrend (Some rs)) =
        Some (if trend_change rs < - fl (5 / 10) then ''critical''
              else if trend_change rs < - fl (3 / 10) then ''high'' else ''moderate'')) \<and>
   (5 \<le> length rs \<and> (\<forall>r \<in> set rs. 0 \<le> rating r) \<and> sum_list (map rating rs) < 2 ^ 53 \<longrightarrow>
      averageRating (newer_half rs) =
        fl (of_int (sum_list (map rating (newer_half rs))) / of_nat (length (newer_half rs))) \<and>
      averageRating (older_half rs) =
        fl (of_int (sum_list (map rating (older_half rs))) / of_nat (length (older_half rs))))"
proof -
  have none: "trend (calculateReviewTrend None) = ''insufficient_data''"
    "change (calculateReviewTrend None) = 0"
    by (simp_all add: calculateReviewTrend_def)
  have few: "trend (calculateReviewTrend (Some rs)) = ''insufficient_data'' \<and>
      change (calculateReviewTrend (Some rs)) = 0" if "length rs < 5"
    using none trend_few[OF that] by simp
  have many: "change (calculateReviewTrend (Some rs)) = fl (of_int (toFixed2 (trend_change rs)) / 100) \<and>
      trend (calculateReviewTrend (Some rs)) =
        (if trend_change rs < - fl (3 / 10) then ''worsening''
         else if fl (3 / 10) < trend_change rs then ''improving'' else ''stable'') \<and>
      trendScore (calculateReviewTrend (Some rs)) =
        Some (if trend_change rs < - fl (5 / 10) then ''critical''
              else if trend_change rs < - fl (3 / 10) then ''high'' else ''moderate'')"
    if "5 \<le> length rs"
    using trend_many(1-3)[OF that] by (simp only: fixed2_def)
  have diff: "trend_change rs = fl (averageRating (newer_half rs) - averageRating (older_half rs))"
    by (simp add: trend_change_def js_sub_def)
  have mean: "averageRating (newer_half rs) =
        fl (of_int (sum_list (map rating (newer_half rs))) / of_nat (length (newer_half rs))) \<and>
      averageRating (older_half rs) =
        fl (of_int (sum_list (map rating (older_half rs))) / of_nat (length (older_half rs)))"
    if "5 \<le> length rs" "\<forall>r \<in> set rs. 0 \<le> rating r" "sum_list (map rating rs) < 2 ^ 53"
    using halves_mean[OF that(2,3)] that(1) by simp
  show ?thesis
    using none few many diff mean halves(2)[of rs] by_date_desc_sorted[of rs]
      by_date_desc_stable[of _ rs] toFixed2_close[of "trend_change rs"]
      newer_half_def[of rs] older_half_def[of rs]
    by blast
qed

theorem calculateReviewTrend_result_witness:
  "5 \<le> length decline_reviews \<and>
   list_all (\<lambda>r. 0 \<le> rating r) decline_reviews \<and>
   sum_list (map rating decline_reviews) < 2 ^ 53 \<and>
   averageRating (newer_half decline_reviews) =
     fl (of_int (sum_list (map rating (newer_half decline_reviews)))
           / of_nat (length (newer_half decline_reviews))) \<and>
   trend (calculateReviewTrend (Some decline_reviews)) = ''worsening'' \<and>
   change (calculateReviewTrend (Some decline_reviews)) = - 2 \<and>
   trend_change decline_reviews < - fl (3 / 10) \<and>
   length tie_reviews < 5 \<and>
   trend (calculateReviewTrend (Some tie_reviews)) = ''insufficient_data'' \<and>
   change (calculateReviewTrend (Some tie_reviews)) = 0"
proof -
  have a: "5 \<le> length decline_reviews" "\<forall>r \<in> set decline_reviews. 0 \<le> rating r"
    "sum_list (map rating decline_reviews) < 2 ^ 53"
    by (simp_all add: decline_reviews_def mk_review_def)
  have b: "length tie_reviews < 5"
    by (simp add: tie_reviews_def)
  from calculateReviewTrend_result[of tie_reviews] b
  have 1: "trend (calculateReviewTrend (Some tie_reviews)) = ''insufficient_data'' \<and>
      change (calculateReviewTrend (Some tie_reviews)) = 0"
    by blast
  from calculateReviewTrend_result[of decline_reviews] a(1)
  have "trend (calculateReviewTrend (Some decline_reviews)) =
        (if trend_change decline_reviews < - fl (3 / 10) then ''worsening''
         else if fl (3 / 10) < trend_change decline_reviews then ''improving'' else ''stable'')"
    by blast
  with trend_decline have 2: "trend_change decline_reviews < - fl (3 / 10)"
    by (simp split: if_splits)
  from calculateReviewTrend_result[of decline_reviews] a
  have 3: "averageRating (newer_half decline_reviews) =
     fl (of_int (sum_list (map rating (newer_half decline_reviews)))
           / of_nat (length (newer_half decline_reviews)))"
    by blast
  from a b 1 2 3 trend_decline decline_change show ?thesis
    by (simp add: list_all_iff)
qed

theorem calculateReviewTrend_result_counterexample:
  "length edge_reviews = 15 \<and>
   trend (calculateReviewTrend (Some edge_reviews)) = ''improving'' \<and>
   change (calculateReviewTrend (Some edge_reviews)) = fl (3 / 10) \<and>
   \<not> fl (3 / 10) < change (calculateReviewTrend (Some edge_reviews))"
  using edge_length edge_trend edge_change by simp

end
